theory Spec2Isabelle
  imports Main "HOL-Library.AList"
begin

section \<open>Booking admission: \<^verbatim>\<open>src/routes/bookings.ts\<close>\<close>

text \<open>
  The handlers of the bookings router are embedded as functions from the request and
  the stored tables to the HTTP response and the tables afterwards.

  \<^item> A table is the list of its rows in storage order (ascending primary key, the order
    of insertion). A \<^verbatim>\<open>select ... where p\<close> is \<open>filter p\<close> over that list and
    \<^verbatim>\<open>.limit(1)\<close> keeps the first row found; no query of the router has an
    \<^verbatim>\<open>orderBy\<close>.
  \<^item> Every \<^verbatim>\<open>await db...\<close> may throw. Which statements throw is a parameter of the
    model (\<open>throws\<close>, one flag per statement of the source); a throw reaches the
    handler's \<^verbatim>\<open>catch\<close> and gives the 500 response. Schema constraints are not
    modelled beyond that.
  \<^item> The clock (\<^verbatim>\<open>new Date()\<close>, the column default \<^verbatim>\<open>unixepoch()\<close>) is the
    parameter \<open>now\<close>, read once per request.
  \<^item> Columns no handler of the router reads or writes (gym, payment, creation time)
    are left out of the rows.
\<close>

datatype booking_status = Confirmed | Cancelled | Waitlist | Attended | NoShow

record class_row =
  c_id :: int
  c_capacity :: int
  c_isActive :: bool

record booking =
  b_id :: int
  b_userId :: int
  b_classId :: int
  b_status :: booking_status
  b_notes :: "string option"
  b_bookedAt :: int
  b_cancelledAt :: "int option"
  b_updatedAt :: int

record bookings_db =
  classes :: "class_row list"
  bookings :: "booking list"
  nextBookingId :: int

text \<open>The database statements of the two handlers, in the order of the source.\<close>

datatype booking_stmt =
  SelectClass | SelectExistingBooking | CountConfirmed | InsertBooking
  | SelectBooking | UpdateCancel | SelectWaitlist | UpdatePromote

type_synonym booking_faults = "booking_stmt \<Rightarrow> bool"

datatype booking_body =
  ErrorMessage string
  | ValidationErrors
  | BookingCreated booking string
  | BookingUpdated "booking option"

type_synonym booking_response = "nat \<times> booking_body"

record create_body =
  cb_classId :: int
  cb_notes :: "string option"

definition noBookingFaults :: booking_faults where
  "noBookingFaults = (\<lambda>_. False)"

definition isConfirmedIn :: "int \<Rightarrow> booking \<Rightarrow> bool" where
  "isConfirmedIn cid b \<longleftrightarrow> b_classId b = cid \<and> b_status b = Confirmed"

definition isWaitlistIn :: "int \<Rightarrow> booking \<Rightarrow> bool" where
  "isWaitlistIn cid b \<longleftrightarrow> b_classId b = cid \<and> b_status b = Waitlist"

text \<open>
  \<^verbatim>\<open>router.post('/')\<close>. \<open>body = None\<close> is a request body that
  \<^verbatim>\<open>createBookingSchema.parse\<close> rejects; \<open>userId\<close> is the value of
  \<^verbatim>\<open>req.user!.id\<close>.
\<close>

definition createBooking ::
  "booking_faults \<Rightarrow> int \<Rightarrow> int \<Rightarrow> create_body option \<Rightarrow> bookings_db
     \<Rightarrow> booking_response \<times> bookings_db" where
  "createBooking throws now userId body db =
    (case body of
       None \<Rightarrow> ((400, ValidationErrors), db)
     | Some data \<Rightarrow>
        if throws SelectClass then ((500, ErrorMessage ''Failed to create booking''), db)
        else (case filter (\<lambda>c. c_id c = cb_classId data) (classes db) of
          [] \<Rightarrow> ((404, ErrorMessage ''Class not found or inactive''), db)
        | classData # _ \<Rightarrow>
           if \<not> c_isActive classData
           then ((404, ErrorMessage ''Class not found or inactive''), db)
           else if throws SelectExistingBooking
           then ((500, ErrorMessage ''Failed to create booking''), db)
           else if filter (\<lambda>b. b_userId b = userId \<and> b_classId b = cb_classId data
                                \<and> b_status b = Confirmed) (bookings db) \<noteq> []
           then ((400, ErrorMessage ''You already have a booking for this class''), db)
           else if throws CountConfirmed
           then ((500, ErrorMessage ''Failed to create booking''), db)
           else
             let currentBookings = int (length (filter (isConfirmedIn (cb_classId data)) (bookings db)));
                 status = (if currentBookings \<ge> c_capacity classData then Waitlist else Confirmed)
             in if throws InsertBooking
                then ((500, ErrorMessage ''Failed to create booking''), db)
                else
                  let newBooking = \<lparr> b_id = nextBookingId db, b_userId = userId,
                        b_classId = cb_classId data, b_status = status, b_notes = cb_notes data,
                        b_bookedAt = now, b_cancelledAt = None, b_updatedAt = now \<rparr>
                  in ((201, BookingCreated newBooking
                         (if status = Waitlist then ''Added to waitlist'' else ''Booking confirmed'')),
                      db\<lparr> bookings := bookings db @ [newBooking],
                          nextBookingId := nextBookingId db + 1 \<rparr>)))"

text \<open>
  \<^verbatim>\<open>router.patch('/:bookingId/cancel')\<close>. \<open>bookingId\<close> is the number
  \<^verbatim>\<open>parseInt(req.params.bookingId)\<close>. Both updates select their rows by
  \<^verbatim>\<open>bookings.id\<close> alone.
\<close>

definition cancelRow :: "int \<Rightarrow> booking \<Rightarrow> booking" where
  "cancelRow now b = b\<lparr> b_status := Cancelled, b_cancelledAt := Some now, b_updatedAt := now \<rparr>"

definition promoteRow :: "int \<Rightarrow> booking \<Rightarrow> booking" where
  "promoteRow now b = b\<lparr> b_status := Confirmed, b_updatedAt := now \<rparr>"

definition updateWhereId :: "int \<Rightarrow> (booking \<Rightarrow> booking) \<Rightarrow> booking list \<Rightarrow> booking list" where
  "updateWhereId i f rows = map (\<lambda>b. if b_id b = i then f b else b) rows"

definition firstRow :: "'a list \<Rightarrow> 'a option" where
  "firstRow rows = (case rows of [] \<Rightarrow> None | r # _ \<Rightarrow> Some r)"

definition cancelBooking ::
  "booking_faults \<Rightarrow> int \<Rightarrow> int \<Rightarrow> int \<Rightarrow> bookings_db \<Rightarrow> booking_response \<times> bookings_db" where
  "cancelBooking throws now userId bookingId db =
    (if throws SelectBooking then ((500, ErrorMessage ''Failed to cancel booking''), db)
     else case filter (\<lambda>b. b_id b = bookingId \<and> b_userId b = userId) (bookings db) of
       [] \<Rightarrow> ((404, ErrorMessage ''Booking not found''), db)
     | booking # _ \<Rightarrow>
        if b_status booking = Cancelled
        then ((400, ErrorMessage ''Booking already cancelled''), db)
        else if throws UpdateCancel
        then ((500, ErrorMessage ''Failed to cancel booking''), db)
        else
          let db1 = db\<lparr> bookings := updateWhereId bookingId (cancelRow now) (bookings db) \<rparr>;
              updatedBooking = filter (\<lambda>b. b_id b = bookingId) (bookings db1)
          in if b_status booking = Confirmed
             then
               if throws SelectWaitlist
               then ((500, ErrorMessage ''Failed to cancel booking''), db1)
               else case filter (isWaitlistIn (b_classId booking)) (bookings db1) of
                 [] \<Rightarrow> ((200, BookingUpdated (firstRow updatedBooking)), db1)
               | waitlistBooking # _ \<Rightarrow>
                  if throws UpdatePromote
                  then ((500, ErrorMessage ''Failed to cancel booking''), db1)
                  else ((200, BookingUpdated (firstRow updatedBooking)),
                        db1\<lparr> bookings := updateWhereId (b_id waitlistBooking) (promoteRow now)
                                             (bookings db1) \<rparr>)
             else ((200, BookingUpdated (firstRow updatedBooking)), db1))"

text \<open>Requests in sequence, each on the tables the one before left.\<close>

fun createBookings ::
  "booking_faults \<Rightarrow> (int \<times> int \<times> create_body option) list \<Rightarrow> bookings_db
     \<Rightarrow> booking_response list \<times> bookings_db" where
  "createBookings throws [] db = ([], db)"
| "createBookings throws ((now, userId, body) # reqs) db =
     (let (r, db1) = createBooking throws now userId body db;
          (rs, db2) = createBookings throws reqs db1
      in (r # rs, db2))"

text \<open>
  The two handlers as the only writers of the bookings table: a request carries the
  statements that throw while it is served, the time it is served at, the caller and the
  operation.
\<close>

datatype booking_op = CreateOp "create_body option" | CancelOp int

type_synonym booking_request = "booking_faults \<times> int \<times> int \<times> booking_op"

fun handleBooking :: "booking_request \<Rightarrow> bookings_db \<Rightarrow> booking_response \<times> bookings_db" where
  "handleBooking (throws, now, userId, CreateOp body) db = createBooking throws now userId body db"
| "handleBooking (throws, now, userId, CancelOp bookingId) db =
     cancelBooking throws now userId bookingId db"

fun runBookings :: "booking_request list \<Rightarrow> bookings_db \<Rightarrow> bookings_db" where
  "runBookings [] db = db"
| "runBookings (r # rs) db = runBookings rs (snd (handleBooking r db))"

definition requestTime :: "booking_request \<Rightarrow> int" where
  "requestTime r = fst (snd r)"

text \<open>
  A table in booking order: booking times do not decrease along the table and none is
  later than \<open>t\<close>, identifiers increase along the table and stay below the next one.
\<close>

definition bookingsInOrder :: "int \<Rightarrow> bookings_db \<Rightarrow> bool" where
  "bookingsInOrder t db \<longleftrightarrow>
     sorted (map b_bookedAt (bookings db))
     \<and> (\<forall>x\<in>set (map b_bookedAt (bookings db)). x \<le> t)
     \<and> sorted_wrt (<) (map b_id (bookings db))
     \<and> (\<forall>i\<in>set (map b_id (bookings db)). i < nextBookingId db)"

text \<open>
  Vocabulary for the statements below: the number of Confirmed bookings of a class, the
  row an insert stores, the admission rule in the words of the specification (Confirmed
  when the count is strictly below the capacity, Waitlisted otherwise), and a run of
  requests \<open>(now, userId, notes)\<close> that all name one class.
\<close>

definition confirmedCount :: "int \<Rightarrow> bookings_db \<Rightarrow> nat" where
  "confirmedCount cid db = length (filter (isConfirmedIn cid) (bookings db))"

definition newBookingRow ::
  "int \<Rightarrow> int \<Rightarrow> create_body \<Rightarrow> booking_status \<Rightarrow> bookings_db \<Rightarrow> booking" where
  "newBookingRow now userId data status db =
     \<lparr> b_id = nextBookingId db, b_userId = userId, b_classId = cb_classId data,
       b_status = status, b_notes = cb_notes data, b_bookedAt = now,
       b_cancelledAt = None, b_updatedAt = now \<rparr>"

definition admitStatus :: "int \<Rightarrow> class_row \<Rightarrow> bookings_db \<Rightarrow> booking_status" where
  "admitStatus cid cls db =
     (if int (confirmedCount cid db) < c_capacity cls then Confirmed else Waitlist)"

definition requestsFor ::
  "int \<Rightarrow> (int \<times> int \<times> string option) list \<Rightarrow> (int \<times> int \<times> create_body option) list" where
  "requestsFor cid rs =
     map (\<lambda>(now, u, n). (now, u, Some \<lparr> cb_classId = cid, cb_notes = n \<rparr>)) rs"

section \<open>Payment reconciliation: \<^verbatim>\<open>src/routes/payments.ts\<close>\<close>

text \<open>
  The webhook of the payments router and the functions it calls. Tables are lists of
  rows as above, and each database statement may throw (\<open>dbThrows\<close>). What the
  handler takes from outside the repository is a field of \<open>env\<close>: the gateway
  (\<^verbatim>\<open>mercadopago.payment.findById\<close>, which may throw, resolve to nothing, or to a
  payment object) and the JavaScript built-ins \<^verbatim>\<open>parseInt\<close> (\<open>None\<close> for
  \<^verbatim>\<open>NaN\<close>), \<^verbatim>\<open>new Date(s).getTime()\<close> (\<open>None\<close> for an invalid date) and
  \<^verbatim>\<open>toISOString\<close>.

  \<^item> An optional string field is \<open>string option\<close>; JavaScript takes \<open>None\<close>
    and the empty string as false.
  \<^item> \<open>mp_id\<close> is the text of \<^verbatim>\<open>mpPayment.id.toString()\<close>, \<open>None\<close> when
    \<^verbatim>\<open>mpPayment.id\<close> is undefined and the call throws.
  \<^item> A \<^verbatim>\<open>metadata\<close> column holds JSON text or NULL (\<open>None\<close>). The text is
    kept as what \<^verbatim>\<open>JSON.parse(metadata || '{}')\<close> makes of it: \<open>Malformed\<close>
    when the parse throws, else the fields of the parsed object (none for the empty
    text), which \<^verbatim>\<open>JSON.stringify\<close> writes back. A field set to
    \<^verbatim>\<open>undefined\<close> is not written.
  \<^item> \<open>issued\<close> lists the update statements the handlers have executed, also those
    that then threw. No handler reads it.
  \<^item> Amount, currency, description and the other columns the webhook never touches are
    left out of the rows.
\<close>

datatype payment_status = Pending | Approved | PaymentCancelled | Refunded

datatype subscription_status =
  Active | SubscriptionCancelled | Expired | Suspended | PendingPayment

datatype metadata = Malformed | Fields "(string \<times> string) list"

record payment =
  p_id :: int
  p_userId :: int
  p_gymId :: int
  p_status :: payment_status
  p_mercadopagoId :: "string option"
  p_paymentDate :: "int option"
  p_updatedAt :: int
  p_metadata :: "metadata option"

record subscription_payment =
  sp_id :: int
  sp_subscriptionId :: int
  sp_status :: payment_status
  sp_mercadopagoId :: "string option"
  sp_paidAt :: "int option"
  sp_updatedAt :: int
  sp_metadata :: "metadata option"

record subscription =
  s_id :: int
  s_status :: subscription_status
  s_updatedAt :: int

datatype update_stmt =
  PaymentUpdate int | SubscriptionPaymentUpdate int | SubscriptionUpdate int

record payments_db =
  payments :: "payment list"
  subscriptionPayments :: "subscription_payment list"
  subscriptions :: "subscription list"
  issued :: "update_stmt list"

record mp_payment =
  mp_id :: "string option"
  mp_status :: "string option"
  mp_external_reference :: "string option"
  mp_date_approved :: "string option"
  mp_status_detail :: "string option"
  mp_payment_method_id :: "string option"
  mp_payment_type_id :: "string option"

datatype gateway_result = GatewayThrows | GatewayNothing | GatewayPayment mp_payment

datatype payment_stmt =
  SelectSubscriptionPayment | SelectPayment | UpdatePayment
  | UpdateSubscriptionPayment | UpdateSubscription

record env =
  dbThrows :: "payment_stmt \<Rightarrow> bool"
  findById :: "string \<Rightarrow> gateway_result"
  parseInt :: "string \<Rightarrow> int option"
  dateMillis :: "string \<Rightarrow> int option"
  toISOString :: "int \<Rightarrow> string"

datatype outcome = Returned | Threw

record webhook_data =
  d_id :: "string option"

record envelope =
  e_type :: "string option"
  e_data :: "webhook_data option"
  e_action :: "string option"

datatype webhook_body = WebhookError string | Received

type_synonym webhook_response = "nat \<times> webhook_body"

text \<open>JavaScript truth of an optional string, and \<^verbatim>\<open>v || d\<close>.\<close>

definition truthy :: "string option \<Rightarrow> bool" where
  "truthy v = (case v of None \<Rightarrow> False | Some s \<Rightarrow> s \<noteq> [])"

definition orElse :: "string option \<Rightarrow> string \<Rightarrow> string" where
  "orElse v d = (case v of None \<Rightarrow> d | Some s \<Rightarrow> if s = [] then d else s)"

definition mapMercadoPagoStatus :: "string \<Rightarrow> payment_status" where
  "mapMercadoPagoStatus mpStatus =
     (if mpStatus = ''approved'' then Approved
      else if mpStatus = ''cancelled'' \<or> mpStatus = ''rejected'' then PaymentCancelled
      else if mpStatus = ''refunded'' then Refunded
      else Pending)"

text \<open>
  \<^verbatim>\<open>JSON.stringify({...JSON.parse(metadata || '{}'), mercadopago_status: ..., ...})\<close>:
  the stored fields with the six webhook fields written over them.
\<close>

definition parseMetadata :: "metadata option \<Rightarrow> (string \<times> string) list option" where
  "parseMetadata m =
     (case m of None \<Rightarrow> Some [] | Some Malformed \<Rightarrow> None | Some (Fields kvs) \<Rightarrow> Some kvs)"

definition setField ::
  "string \<Rightarrow> string option \<Rightarrow> (string \<times> string) list \<Rightarrow> (string \<times> string) list" where
  "setField k v obj = (case v of None \<Rightarrow> AList.delete k obj | Some s \<Rightarrow> AList.update k s obj)"

definition webhookFields ::
  "env \<Rightarrow> int \<Rightarrow> mp_payment \<Rightarrow> string option \<Rightarrow> (string \<times> string) list
     \<Rightarrow> (string \<times> string) list" where
  "webhookFields env now mpPayment action obj =
     setField ''last_webhook_date'' (Some (toISOString env now))
      (setField ''last_webhook_action'' action
        (setField ''payment_type_id'' (mp_payment_type_id mpPayment)
          (setField ''payment_method_id'' (mp_payment_method_id mpPayment)
            (setField ''mercadopago_status_detail'' (mp_status_detail mpPayment)
              (setField ''mercadopago_status'' (mp_status mpPayment) obj)))))"

definition approvedDate :: "env \<Rightarrow> mp_payment \<Rightarrow> int option" where
  "approvedDate env mpPayment =
     (if truthy (mp_date_approved mpPayment)
      then dateMillis env (orElse (mp_date_approved mpPayment) [])
      else None)"

text \<open>
  The argument of \<^verbatim>\<open>.set\<close> in the two updates. \<^verbatim>\<open>paymentDate\<close> is the
  approval instant in milliseconds, \<^verbatim>\<open>paidAt\<close> is
  \<^verbatim>\<open>Math.floor(getTime() / 1000)\<close>.
\<close>

definition pUpdate ::
  "env \<Rightarrow> int \<Rightarrow> payment_status \<Rightarrow> mp_payment \<Rightarrow> string option \<Rightarrow> string
     \<Rightarrow> (string \<times> string) list \<Rightarrow> payment \<Rightarrow> payment" where
  "pUpdate env now newStatus mpPayment action paymentId obj r =
     r\<lparr> p_status := newStatus, p_mercadopagoId := Some paymentId,
        p_paymentDate := approvedDate env mpPayment, p_updatedAt := now,
        p_metadata := Some (Fields (webhookFields env now mpPayment action obj)) \<rparr>"

definition spUpdate ::
  "env \<Rightarrow> int \<Rightarrow> payment_status \<Rightarrow> mp_payment \<Rightarrow> string option \<Rightarrow> string
     \<Rightarrow> (string \<times> string) list \<Rightarrow> subscription_payment \<Rightarrow> subscription_payment" where
  "spUpdate env now newStatus mpPayment action mpId obj r =
     r\<lparr> sp_status := newStatus, sp_mercadopagoId := Some mpId,
        sp_paidAt := map_option (\<lambda>ms. ms div 1000) (approvedDate env mpPayment),
        sp_updatedAt := now,
        sp_metadata := Some (Fields (webhookFields env now mpPayment action obj)) \<rparr>"

text \<open>\<^verbatim>\<open>handlePaymentApproved\<close> only logs.\<close>

definition handlePaymentApproved :: "payment \<Rightarrow> payments_db \<Rightarrow> payments_db" where
  "handlePaymentApproved payment db = db"

text \<open>
  \<^verbatim>\<open>handleSubscriptionPaymentApproved\<close>: its \<^verbatim>\<open>catch\<close> logs and does not rethrow,
  so the function always returns.
\<close>

definition activateSubscription :: "int \<Rightarrow> int \<Rightarrow> subscription list \<Rightarrow> subscription list" where
  "activateSubscription sid now rows =
     map (\<lambda>s. if s_id s = sid then s\<lparr> s_status := Active, s_updatedAt := now \<rparr> else s) rows"

definition handleSubscriptionPaymentApproved ::
  "env \<Rightarrow> int \<Rightarrow> subscription_payment \<Rightarrow> payments_db \<Rightarrow> payments_db" where
  "handleSubscriptionPaymentApproved env now subscriptionPayment db =
     (let db0 = db\<lparr> issued := issued db
                        @ [SubscriptionUpdate (sp_subscriptionId subscriptionPayment)] \<rparr>
      in if dbThrows env UpdateSubscription then db0
         else db0\<lparr> subscriptions :=
                activateSubscription (sp_subscriptionId subscriptionPayment) now
                  (subscriptions db0) \<rparr>)"

text \<open>
  \<^verbatim>\<open>processSubscriptionPaymentWebhook\<close>. The argument of \<^verbatim>\<open>.set\<close> is built
  before the update runs, so \<^verbatim>\<open>mpPayment.id.toString()\<close> and \<^verbatim>\<open>JSON.parse\<close> throw
  before any statement is executed. The \<^verbatim>\<open>catch\<close> logs and rethrows.
\<close>

definition processSubscriptionPaymentWebhook ::
  "env \<Rightarrow> int \<Rightarrow> subscription_payment \<Rightarrow> payment_status \<Rightarrow> mp_payment \<Rightarrow> string option
     \<Rightarrow> payments_db \<Rightarrow> outcome \<times> payments_db" where
  "processSubscriptionPaymentWebhook env now subscriptionPayment newStatus mpPayment action db =
     (if sp_status subscriptionPayment \<noteq> newStatus then
        (case mp_id mpPayment of
           None \<Rightarrow> (Threw, db)
         | Some mpId \<Rightarrow>
            (case parseMetadata (sp_metadata subscriptionPayment) of
               None \<Rightarrow> (Threw, db)
             | Some obj \<Rightarrow>
                let db0 = db\<lparr> issued := issued db
                            @ [SubscriptionPaymentUpdate (sp_id subscriptionPayment)] \<rparr>
                in if dbThrows env UpdateSubscriptionPayment then (Threw, db0)
                   else
                     let db1 = db0\<lparr> subscriptionPayments :=
                           map (\<lambda>r. if sp_id r = sp_id subscriptionPayment
                                     then spUpdate env now newStatus mpPayment action mpId obj r
                                     else r)
                               (subscriptionPayments db0) \<rparr>
                     in if newStatus = Approved \<and> sp_status subscriptionPayment \<noteq> Approved
                        then (Returned,
                              handleSubscriptionPaymentApproved env now subscriptionPayment db1)
                        else (Returned, db1)))
      else (Returned, db))"

text \<open>
  \<^verbatim>\<open>processPaymentWebhook\<close>. \<open>paymentId\<close> is \<^verbatim>\<open>data.id\<close>, a non-empty string
  when the function is called. The \<^verbatim>\<open>catch\<close> logs and rethrows. The block that
  settles a one-off payment, from \<^verbatim>\<open>if (currentPayment.status !== newStatus)\<close> on,
  is \<open>settlePayment\<close>; its update selects the rows by
  \<^verbatim>\<open>parseInt(externalReference)\<close>.
\<close>

definition settlePayment ::
  "env \<Rightarrow> int \<Rightarrow> payment \<Rightarrow> payment_status \<Rightarrow> mp_payment \<Rightarrow> string \<Rightarrow> string option
     \<Rightarrow> string \<Rightarrow> payments_db \<Rightarrow> outcome \<times> payments_db" where
  "settlePayment env now currentPayment newStatus mpPayment paymentId action externalReference db =
     (if p_status currentPayment \<noteq> newStatus then
        (case parseMetadata (p_metadata currentPayment) of
           None \<Rightarrow> (Threw, db)
         | Some obj \<Rightarrow>
            let db0 = db\<lparr> issued := issued db @ [PaymentUpdate (p_id currentPayment)] \<rparr>
            in if dbThrows env UpdatePayment then (Threw, db0)
               else
                 let db1 = db0\<lparr> payments :=
                       map (\<lambda>r. if Some (p_id r) = parseInt env externalReference
                                 then pUpdate env now newStatus mpPayment action paymentId obj r
                                 else r)
                           (payments db0) \<rparr>
                 in if newStatus = Approved \<and> p_status currentPayment \<noteq> Approved
                    then (Returned, handlePaymentApproved currentPayment db1)
                    else (Returned, db1))
      else (Returned, db))"

definition processPaymentWebhook ::
  "env \<Rightarrow> int \<Rightarrow> string \<Rightarrow> string option \<Rightarrow> payments_db \<Rightarrow> outcome \<times> payments_db" where
  "processPaymentWebhook env now paymentId action db =
     (case findById env paymentId of
        GatewayThrows \<Rightarrow> (Threw, db)
      | GatewayNothing \<Rightarrow> (Returned, db)
      | GatewayPayment mpPayment \<Rightarrow>
         if \<not> truthy (mp_external_reference mpPayment) then (Returned, db)
         else
           let externalReference = orElse (mp_external_reference mpPayment) [];
               newStatus = mapMercadoPagoStatus (orElse (mp_status mpPayment) ''pending'')
           in if dbThrows env SelectSubscriptionPayment then (Threw, db)
              else case filter (\<lambda>r. Some (sp_id r) = parseInt env externalReference)
                          (subscriptionPayments db) of
                existing # _ \<Rightarrow>
                  processSubscriptionPaymentWebhook env now existing newStatus mpPayment action db
              | [] \<Rightarrow>
                  if dbThrows env SelectPayment then (Threw, db)
                  else case filter (\<lambda>r. Some (p_id r) = parseInt env externalReference)
                              (payments db) of
                    [] \<Rightarrow> (Returned, db)
                  | currentPayment # _ \<Rightarrow>
                     settlePayment env now currentPayment newStatus mpPayment paymentId action
                       externalReference db)"

text \<open>The two handlers that are not implemented yet: they log and return.\<close>

definition processSubscriptionWebhook ::
  "string \<Rightarrow> string option \<Rightarrow> payments_db \<Rightarrow> outcome \<times> payments_db" where
  "processSubscriptionWebhook subscriptionId action db = (Returned, db)"

definition processPreapprovalWebhook ::
  "string \<Rightarrow> string option \<Rightarrow> payments_db \<Rightarrow> outcome \<times> payments_db" where
  "processPreapprovalWebhook preapprovalId action db = (Returned, db)"

text \<open>
  \<^verbatim>\<open>router.post('/webhook')\<close>. \<open>validEnvelope\<close> is the guard
  \<^verbatim>\<open>!type || !data || !data.id\<close>: it yields the type and the id when all three are
  true in JavaScript's sense.
\<close>

definition validEnvelope :: "envelope \<Rightarrow> (string \<times> string) option" where
  "validEnvelope body =
     (case e_type body of
        None \<Rightarrow> None
      | Some type \<Rightarrow>
         if type = [] then None
         else (case e_data body of
                 None \<Rightarrow> None
               | Some data \<Rightarrow>
                  (case d_id data of
                     None \<Rightarrow> None
                   | Some i \<Rightarrow> if i = [] then None else Some (type, i))))"

definition respond :: "outcome \<times> payments_db \<Rightarrow> webhook_response \<times> payments_db" where
  "respond r =
     (case r of
        (Returned, db) \<Rightarrow> ((200, Received), db)
      | (Threw, db) \<Rightarrow> ((500, WebhookError ''Webhook processing failed''), db))"

definition webhook ::
  "env \<Rightarrow> int \<Rightarrow> envelope \<Rightarrow> payments_db \<Rightarrow> webhook_response \<times> payments_db" where
  "webhook env now body db =
     (case validEnvelope body of
        None \<Rightarrow> ((400, WebhookError ''Invalid webhook structure''), db)
      | Some (type, i) \<Rightarrow>
         if type = ''payment'' then respond (processPaymentWebhook env now i (e_action body) db)
         else if type = ''subscription''
         then respond (processSubscriptionWebhook i (e_action body) db)
         else if type = ''preapproval''
         then respond (processPreapprovalWebhook i (e_action body) db)
         else ((200, Received), db))"


text \<open>
  Vocabulary for the statements below. \<open>storedStatus\<close> is the status of the local
  record an external reference resolves to, the subscription payment first and the
  one-off payment otherwise. \<open>approvalEdges\<close> lists, row by row, the subscriptions
  linked to the subscription payments whose stored status was not Approved before and
  is Approved after.
\<close>

definition storedStatus :: "env \<Rightarrow> string \<Rightarrow> payments_db \<Rightarrow> payment_status option" where
  "storedStatus env externalReference db =
     (case filter (\<lambda>r. Some (sp_id r) = parseInt env externalReference)
             (subscriptionPayments db) of
        r # _ \<Rightarrow> Some (sp_status r)
      | [] \<Rightarrow>
         (case filter (\<lambda>r. Some (p_id r) = parseInt env externalReference) (payments db) of
            r # _ \<Rightarrow> Some (p_status r)
          | [] \<Rightarrow> None))"

definition edges :: "subscription_payment list \<Rightarrow> subscription_payment list \<Rightarrow> int list" where
  "edges before after =
     map (\<lambda>p. sp_subscriptionId (fst p))
       (filter (\<lambda>p. sp_status (fst p) \<noteq> Approved \<and> sp_status (snd p) = Approved)
          (zip before after))"

definition approvalEdges :: "payments_db \<Rightarrow> payments_db \<Rightarrow> int list" where
  "approvalEdges db db' = edges (subscriptionPayments db) (subscriptionPayments db')"

definition isSubscriptionUpdate :: "update_stmt \<Rightarrow> bool" where
  "isSubscriptionUpdate u = (case u of SubscriptionUpdate _ \<Rightarrow> True | _ \<Rightarrow> False)"

definition issuedBy :: "payments_db \<Rightarrow> payments_db \<Rightarrow> update_stmt list" where
  "issuedBy db db' = drop (length (issued db)) (issued db')"


section \<open>Example data\<close>

text \<open>
  A class of capacity 2 with users 1 and 2 confirmed and users 3 and 4 on the waitlist,
  booked in that order; the same class before anyone booked and the four requests that
  lead from the one to the other; a class of capacity 1 whose
  waitlist holds a booking of user 1; and a table whose second waitlisted row was booked
  before the first.
\<close>

definition bookingA :: booking where
  "bookingA = \<lparr> b_id = 1, b_userId = 1, b_classId = 1, b_status = Confirmed, b_notes = None,
                 b_bookedAt = 10, b_cancelledAt = None, b_updatedAt = 10 \<rparr>"

definition bookingB :: booking where
  "bookingB = \<lparr> b_id = 2, b_userId = 2, b_classId = 1, b_status = Confirmed, b_notes = None,
                 b_bookedAt = 20, b_cancelledAt = None, b_updatedAt = 20 \<rparr>"

definition bookingC :: booking where
  "bookingC = \<lparr> b_id = 3, b_userId = 3, b_classId = 1, b_status = Waitlist, b_notes = None,
                 b_bookedAt = 30, b_cancelledAt = None, b_updatedAt = 30 \<rparr>"

definition bookingD :: booking where
  "bookingD = \<lparr> b_id = 4, b_userId = 4, b_classId = 1, b_status = Waitlist, b_notes = None,
                 b_bookedAt = 40, b_cancelledAt = None, b_updatedAt = 40 \<rparr>"

definition scenarioDb :: bookings_db where
  "scenarioDb = \<lparr> classes = [\<lparr> c_id = 1, c_capacity = 2, c_isActive = True \<rparr>],
                   bookings = [bookingA, bookingB, bookingC, bookingD], nextBookingId = 5 \<rparr>"

definition emptyClassDb :: bookings_db where
  "emptyClassDb = \<lparr> classes = [\<lparr> c_id = 1, c_capacity = 2, c_isActive = True \<rparr>],
                     bookings = [], nextBookingId = 1 \<rparr>"

definition scenarioRequests :: "booking_request list" where
  "scenarioRequests =
     [(noBookingFaults, 10, 1, CreateOp (Some \<lparr> cb_classId = 1, cb_notes = None \<rparr>)),
      (noBookingFaults, 20, 2, CreateOp (Some \<lparr> cb_classId = 1, cb_notes = None \<rparr>)),
      (noBookingFaults, 30, 3, CreateOp (Some \<lparr> cb_classId = 1, cb_notes = None \<rparr>)),
      (noBookingFaults, 40, 4, CreateOp (Some \<lparr> cb_classId = 1, cb_notes = None \<rparr>))]"

definition waitlistedDb :: bookings_db where
  "waitlistedDb =
     \<lparr> classes = [\<lparr> c_id = 1, c_capacity = 1, c_isActive = True \<rparr>],
       bookings =
         [\<lparr> b_id = 1, b_userId = 2, b_classId = 1, b_status = Confirmed, b_notes = None,
            b_bookedAt = 10, b_cancelledAt = None, b_updatedAt = 10 \<rparr>,
          \<lparr> b_id = 2, b_userId = 1, b_classId = 1, b_status = Waitlist, b_notes = None,
            b_bookedAt = 20, b_cancelledAt = None, b_updatedAt = 20 \<rparr>],
       nextBookingId = 3 \<rparr>"

definition outOfOrderDb :: bookings_db where
  "outOfOrderDb =
     \<lparr> classes = [\<lparr> c_id = 1, c_capacity = 1, c_isActive = True \<rparr>],
       bookings =
         [\<lparr> b_id = 1, b_userId = 1, b_classId = 1, b_status = Confirmed, b_notes = None,
            b_bookedAt = 10, b_cancelledAt = None, b_updatedAt = 10 \<rparr>,
          \<lparr> b_id = 2, b_userId = 2, b_classId = 1, b_status = Waitlist, b_notes = None,
            b_bookedAt = 30, b_cancelledAt = None, b_updatedAt = 30 \<rparr>,
          \<lparr> b_id = 3, b_userId = 3, b_classId = 1, b_status = Waitlist, b_notes = None,
            b_bookedAt = 20, b_cancelledAt = None, b_updatedAt = 20 \<rparr>],
       nextBookingId = 4 \<rparr>"

text \<open>
  The scenario of the specification: the gateway reports payment 555 as approved with
  external reference 42, subscription payment 42 of subscription 7 is Pending and
  subscription 7 awaits payment. \<open>flakyEnv\<close> differs from \<open>scenarioEnv\<close> in that the
  update of the subscriptions table throws, \<open>downEnv\<close> in that the gateway call throws,
  \<open>lookupDownEnv\<close> in that the lookup of the subscription payment throws.
\<close>

definition approvedPayment :: mp_payment where
  "approvedPayment =
     \<lparr> mp_id = Some ''555'', mp_status = Some ''approved'',
       mp_external_reference = Some ''42'', mp_date_approved = None,
       mp_status_detail = Some ''accredited'', mp_payment_method_id = Some ''visa'',
       mp_payment_type_id = Some ''credit_card'' \<rparr>"

definition scenarioEnv :: env where
  "scenarioEnv =
     \<lparr> dbThrows = (\<lambda>s. False),
       findById = (\<lambda>i. if i = ''555'' then GatewayPayment approvedPayment else GatewayNothing),
       parseInt = (\<lambda>s. if s = ''42'' then Some 42 else None),
       dateMillis = (\<lambda>s. None),
       toISOString = (\<lambda>t. ''2026-01-01T00:00:00.000Z'') \<rparr>"

definition flakyEnv :: env where
  "flakyEnv = scenarioEnv\<lparr> dbThrows := (\<lambda>s. s = UpdateSubscription) \<rparr>"

definition downEnv :: env where
  "downEnv = scenarioEnv\<lparr> findById := (\<lambda>i. GatewayThrows) \<rparr>"

definition lookupDownEnv :: env where
  "lookupDownEnv = scenarioEnv\<lparr> dbThrows := (\<lambda>s. s = SelectSubscriptionPayment) \<rparr>"

definition paymentEnvelope :: envelope where
  "paymentEnvelope =
     \<lparr> e_type = Some ''payment'', e_data = Some \<lparr> d_id = Some ''555'' \<rparr>,
       e_action = Some ''payment.updated'' \<rparr>"

definition subscriptionEnvelope :: envelope where
  "subscriptionEnvelope =
     \<lparr> e_type = Some ''subscription'', e_data = Some \<lparr> d_id = Some ''555'' \<rparr>,
       e_action = None \<rparr>"

definition emptyTypeEnvelope :: envelope where
  "emptyTypeEnvelope =
     \<lparr> e_type = Some [], e_data = Some \<lparr> d_id = Some ''555'' \<rparr>,
       e_action = Some ''payment.updated'' \<rparr>"

definition pendingSubscriptionPayment :: subscription_payment where
  "pendingSubscriptionPayment =
     \<lparr> sp_id = 42, sp_subscriptionId = 7, sp_status = Pending, sp_mercadopagoId = None,
       sp_paidAt = None, sp_updatedAt = 0, sp_metadata = None \<rparr>"

definition pendingDb :: payments_db where
  "pendingDb =
     \<lparr> payments = [],
       subscriptionPayments = [pendingSubscriptionPayment],
       subscriptions = [\<lparr> s_id = 7, s_status = PendingPayment, s_updatedAt = 0 \<rparr>],
       issued = [] \<rparr>"

definition scenarioFields :: "(string \<times> string) list" where
  "scenarioFields =
     [(''mercadopago_status'', ''approved''), (''mercadopago_status_detail'', ''accredited''),
      (''payment_method_id'', ''visa''), (''payment_type_id'', ''credit_card''),
      (''last_webhook_action'', ''payment.updated''),
      (''last_webhook_date'', ''2026-01-01T00:00:00.000Z'')]"

definition approvedSubscriptionPayment :: subscription_payment where
  "approvedSubscriptionPayment =
     \<lparr> sp_id = 42, sp_subscriptionId = 7, sp_status = Approved, sp_mercadopagoId = Some ''555'',
       sp_paidAt = None, sp_updatedAt = 1000, sp_metadata = Some (Fields scenarioFields) \<rparr>"

definition activatedDb :: payments_db where
  "activatedDb =
     \<lparr> payments = [],
       subscriptionPayments = [approvedSubscriptionPayment],
       subscriptions = [\<lparr> s_id = 7, s_status = Active, s_updatedAt = 1000 \<rparr>],
       issued = [SubscriptionPaymentUpdate 42, SubscriptionUpdate 7] \<rparr>"

definition strandedDb :: payments_db where
  "strandedDb =
     \<lparr> payments = [],
       subscriptionPayments = [approvedSubscriptionPayment],
       subscriptions = [\<lparr> s_id = 7, s_status = PendingPayment, s_updatedAt = 0 \<rparr>],
       issued = [SubscriptionPaymentUpdate 42, SubscriptionUpdate 7] \<rparr>"


section \<open>Properties of the booking handlers\<close>

subsection \<open>Queries over a table\<close>

lemma filter_Cons_mem: "filter P xs = y # ys \<Longrightarrow> y \<in> set xs \<and> P y"
proof -
  assume a: "filter P xs = y # ys"
  have "y \<in> set (filter P xs)" unfolding a by simp
  then show ?thesis by simp
qed

lemma filter_Cons_first:
  "filter P xs = y # ys \<Longrightarrow> \<exists>pre post. xs = pre @ y # post \<and> (\<forall>x\<in>set pre. \<not> P x)"
  by (metis filter_eq_Cons_iff)

lemma filter_map_unaffected:
  "(\<And>x. x \<in> set xs \<Longrightarrow> (P (f x) \<longleftrightarrow> P x) \<and> (P x \<longrightarrow> f x = x))
     \<Longrightarrow> filter P (map f xs) = filter P xs"
  by (induction xs) auto

lemma filter_map_same_key:
  assumes "\<And>x. P (f x) = P x"
  shows "filter P (map f xs) = map f (filter P xs)"
  using assms by (induction xs) auto

lemma distinct_id_eq:
  "distinct (map b_id rows) \<Longrightarrow> x \<in> set rows \<Longrightarrow> y \<in> set rows \<Longrightarrow> b_id x = b_id y
     \<Longrightarrow> x = y"
  by (meson distinct_map inj_onD)

lemma updateWhereId_distinct:
  assumes "distinct (map b_id rows)" "b \<in> set rows"
  shows "updateWhereId (b_id b) f rows = map (\<lambda>x. if x = b then f x else x) rows"
  unfolding updateWhereId_def using assms distinct_id_eq by (intro map_cong) auto

lemma filter_waitlist_after_cancel:
  assumes "b_status b \<noteq> Waitlist"
  shows "filter (isWaitlistIn cid) (map (\<lambda>x. if x = b then cancelRow now x else x) rows)
         = filter (isWaitlistIn cid) rows"
  using assms by (intro filter_map_unaffected) (auto simp: isWaitlistIn_def cancelRow_def)

lemma filter_id_after_cancel:
  assumes "distinct (map b_id rows)" "b \<in> set rows"
  shows "filter (\<lambda>x. b_id x = b_id b) (map (\<lambda>x. if x = b then cancelRow now x else x) rows)
         = [cancelRow now b]"
  using assms
proof (induction rows)
  case Nil
  then show ?case by simp
next
  case (Cons r rows)
  show ?case
  proof (cases "r = b")
    case True
    with Cons.prems have "\<forall>x\<in>set rows. b_id x \<noteq> b_id b" by (auto simp: image_iff)
    then have "filter (\<lambda>x. b_id x = b_id b)
                 (map (\<lambda>x. if x = b then cancelRow now x else x) rows) = []"
      by (auto simp: filter_empty_conv cancelRow_def)
    with True show ?thesis by (simp add: cancelRow_def)
  next
    case False
    with Cons.prems have "b \<in> set rows" "distinct (map b_id rows)" "b_id r \<noteq> b_id b"
      by (auto simp: image_iff)
    with Cons.IH False show ?thesis by simp
  qed
qed

subsection \<open>Creating a booking\<close>

text \<open>
  When the class is found active, the caller has no Confirmed booking for it and no
  statement throws, the handler answers 201 and appends one row whose status follows the
  admission rule.
\<close>

lemma createBooking_success:
  assumes cls: "filter (\<lambda>c. c_id c = cb_classId data) (classes db) = cls # others"
    and act: "c_isActive cls"
    and free: "\<forall>b\<in>set (bookings db). \<not> (b_userId b = userId \<and> isConfirmedIn (cb_classId data) b)"
    and ok: "\<not> throws SelectClass" "\<not> throws SelectExistingBooking" "\<not> throws CountConfirmed"
            "\<not> throws InsertBooking"
  shows "createBooking throws now userId (Some data) db =
     ((201, BookingCreated (newBookingRow now userId data (admitStatus (cb_classId data) cls db) db)
              (if admitStatus (cb_classId data) cls db = Waitlist
               then ''Added to waitlist'' else ''Booking confirmed'')),
      db\<lparr> bookings := bookings db
              @ [newBookingRow now userId data (admitStatus (cb_classId data) cls db) db],
          nextBookingId := nextBookingId db + 1 \<rparr>)"
proof -
  from free have "filter (\<lambda>b. b_userId b = userId \<and> b_classId b = cb_classId data
                                \<and> b_status b = Confirmed) (bookings db) = []"
    by (auto simp: filter_empty_conv isConfirmedIn_def)
  then show ?thesis
    unfolding createBooking_def using cls act ok
    by (simp add: Let_def admitStatus_def confirmedCount_def newBookingRow_def not_less)
qed

text \<open>Conversely, a 201 answer comes with exactly that row.\<close>

lemma createBooking_201:
  assumes "createBooking throws now userId body db = ((201, rb), db')"
  shows "\<exists>data cls others. body = Some data
     \<and> filter (\<lambda>c. c_id c = cb_classId data) (classes db) = cls # others
     \<and> rb = BookingCreated
              (newBookingRow now userId data (admitStatus (cb_classId data) cls db) db)
              (if admitStatus (cb_classId data) cls db = Waitlist
               then ''Added to waitlist'' else ''Booking confirmed'')
     \<and> db' = db\<lparr> bookings := bookings db
                    @ [newBookingRow now userId data (admitStatus (cb_classId data) cls db) db],
                 nextBookingId := nextBookingId db + 1 \<rparr>"
  using assms unfolding createBooking_def
  by (auto simp: Let_def admitStatus_def confirmedCount_def newBookingRow_def not_less
           split: option.splits list.splits if_splits)

text \<open>
  What the duplicate check of the handler does cover: a caller who holds a Confirmed
  booking for the class is refused with 400 and nothing is stored.
\<close>

lemma createBooking_refuses_confirmed_holder:
  assumes cls: "filter (\<lambda>c. c_id c = cb_classId data) (classes db) = cls # others"
    and act: "c_isActive cls"
    and held: "b \<in> set (bookings db)" "b_userId b = userId" "b_classId b = cb_classId data"
              "b_status b = Confirmed"
    and ok: "\<not> throws SelectClass" "\<not> throws SelectExistingBooking"
  shows "createBooking throws now userId (Some data) db =
           ((400, ErrorMessage ''You already have a booking for this class''), db)"
proof -
  from held have "filter (\<lambda>b. b_userId b = userId \<and> b_classId b = cb_classId data
                                \<and> b_status b = Confirmed) (bookings db) \<noteq> []"
    by (auto simp: filter_empty_conv)
  then show ?thesis
    unfolding createBooking_def using cls act ok by simp
qed

text \<open>
  Rows come out in booking order when the clock does not run backwards, and with
  distinct identifiers.
\<close>

lemma createBooking_keeps_bookedAt_sorted:
  assumes "sorted (map b_bookedAt (bookings db))"
    and "\<forall>b\<in>set (bookings db). b_bookedAt b \<le> now"
  shows "sorted (map b_bookedAt (bookings (snd (createBooking throws now userId body db))))"
  using assms unfolding createBooking_def
  by (auto simp: Let_def sorted_append split: option.splits list.splits)

lemma createBooking_keeps_ids_distinct:
  assumes "distinct (map b_id (bookings db))"
    and "\<forall>b\<in>set (bookings db). b_id b < nextBookingId db"
  shows "distinct (map b_id (bookings (snd (createBooking throws now userId body db))))
     \<and> (\<forall>b\<in>set (bookings (snd (createBooking throws now userId body db))).
           b_id b < nextBookingId (snd (createBooking throws now userId body db)))"
  using assms unfolding createBooking_def
  by (auto simp: Let_def split: option.splits list.splits)

lemma confirmedCount_append:
  "confirmedCount cid (db\<lparr> bookings := bookings db @ [nb], nextBookingId := k \<rparr>)
     = confirmedCount cid db + (if isConfirmedIn cid nb then 1 else 0)"
  by (simp add: confirmedCount_def)

lemma admission_statuses_step:
  "(if m < C then Confirmed else Waitlist)
     # (replicate (min (C - (m + (if m < C then 1 else 0))) n) Confirmed
        @ replicate (n - (C - (m + (if m < C then 1 else 0)))) Waitlist)
   = replicate (min (C - m) (Suc n)) Confirmed @ replicate (Suc n - (C - m)) Waitlist"
proof (cases "m < C")
  case True
  then obtain k where k: "C - m = Suc k" by (metis Suc_diff_Suc)
  then have "C - (m + 1) = k" by simp
  with True k show ?thesis by simp
next
  case False
  then have "C - m = 0" by simp
  with False show ?thesis by (simp add: replicate_Suc[symmetric] del: replicate_Suc)
qed

text \<open>
  A run of requests by distinct users, none of whom has a booking for the class yet:
  every request is answered 201 and the rows are appended in request order. With \<open>m\<close>
  seats taken at the start, the first \<open>C - m\<close> requests are Confirmed.
\<close>

lemma createBookings_sequence:
  assumes cls: "filter (\<lambda>c. c_id c = cid) (classes db) = cls # others"
    and act: "c_isActive cls" and cap: "c_capacity cls = int C"
    and ok: "\<forall>s. \<not> throws s"
    and dist: "distinct (map (\<lambda>r. fst (snd r)) rs)"
    and fresh: "\<forall>b\<in>set (bookings db). b_classId b = cid
                  \<longrightarrow> b_userId b \<notin> set (map (\<lambda>r. fst (snd r)) rs)"
  shows "\<exists>resps db' news. createBookings throws (requestsFor cid rs) db = (resps, db')
     \<and> map fst resps = replicate (length rs) 201
     \<and> classes db' = classes db
     \<and> bookings db' = bookings db @ news
     \<and> map b_userId news = map (\<lambda>r. fst (snd r)) rs
     \<and> map b_bookedAt news = map fst rs
     \<and> (\<forall>b\<in>set news. b_classId b = cid)
     \<and> map b_status news =
         replicate (min (C - confirmedCount cid db) (length rs)) Confirmed
         @ replicate (length rs - (C - confirmedCount cid db)) Waitlist"
  using cls dist fresh
proof (induction rs arbitrary: db)
  case Nil
  then show ?case by (simp add: requestsFor_def)
next
  case (Cons r rs)
  obtain now u n where r: "r = (now, u, n)" by (cases r) auto
  let ?data = "\<lparr> cb_classId = cid, cb_notes = n \<rparr>"
  let ?st = "admitStatus cid cls db"
  let ?nb = "newBookingRow now u ?data ?st db"
  let ?msg = "if ?st = Waitlist then ''Added to waitlist'' else ''Booking confirmed''"
  let ?db1 = "db\<lparr> bookings := bookings db @ [?nb], nextBookingId := nextBookingId db + 1 \<rparr>"
  have free: "\<forall>b\<in>set (bookings db). \<not> (b_userId b = u \<and> isConfirmedIn (cb_classId ?data) b)"
    using Cons.prems(3) r by (auto simp: isConfirmedIn_def)
  have step: "createBooking throws now u (Some ?data) db = ((201, BookingCreated ?nb ?msg), ?db1)"
    using createBooking_success[of ?data db cls others u throws now] Cons.prems(1) act free ok
    by simp
  have st: "?st = (if confirmedCount cid db < C then Confirmed else Waitlist)"
    by (simp add: admitStatus_def cap)
  define m1 where "m1 = confirmedCount cid ?db1"
  have cnt: "m1 = confirmedCount cid db + (if confirmedCount cid db < C then 1 else 0)"
    unfolding m1_def by (simp add: confirmedCount_append isConfirmedIn_def newBookingRow_def st)
  have p1: "filter (\<lambda>c. c_id c = cid) (classes ?db1) = cls # others"
    using Cons.prems(1) by simp
  have p2: "distinct (map (\<lambda>r. fst (snd r)) rs)" using Cons.prems(2) by simp
  have p3: "\<forall>b\<in>set (bookings ?db1). b_classId b = cid
              \<longrightarrow> b_userId b \<notin> set (map (\<lambda>r. fst (snd r)) rs)"
    using Cons.prems(2,3) r by (auto simp: newBookingRow_def)
  from Cons.IH[OF p1 p2 p3] obtain resps db' news where
    ih: "createBookings throws (requestsFor cid rs) ?db1 = (resps, db')"
        "map fst resps = replicate (length rs) 201"
        "classes db' = classes ?db1"
        "bookings db' = bookings ?db1 @ news"
        "map b_userId news = map (\<lambda>r. fst (snd r)) rs"
        "map b_bookedAt news = map fst rs"
        "\<forall>b\<in>set news. b_classId b = cid"
        "map b_status news =
           replicate (min (C - m1) (length rs)) Confirmed
           @ replicate (length rs - (C - m1)) Waitlist"
    unfolding m1_def by blast
  have run: "createBookings throws (requestsFor cid (r # rs)) db =
      ((201, BookingCreated ?nb ?msg) # resps, db')"
    using step ih(1) by (simp add: requestsFor_def r)
  have sts: "map b_status (?nb # news) =
         replicate (min (C - confirmedCount cid db) (length (r # rs))) Confirmed
         @ replicate (length (r # rs) - (C - confirmedCount cid db)) Waitlist"
  proof -
    have "map b_status (?nb # news) = ?st # map b_status news"
      by (simp add: newBookingRow_def)
    also have "\<dots> = (if confirmedCount cid db < C then Confirmed else Waitlist)
       # (replicate (min (C - (confirmedCount cid db + (if confirmedCount cid db < C then 1 else 0)))
                         (length rs)) Confirmed
          @ replicate (length rs - (C - (confirmedCount cid db
                         + (if confirmedCount cid db < C then 1 else 0)))) Waitlist)"
      unfolding ih(8) cnt st ..
    also have "\<dots> = replicate (min (C - confirmedCount cid db) (Suc (length rs))) Confirmed
         @ replicate (Suc (length rs) - (C - confirmedCount cid db)) Waitlist"
      by (rule admission_statuses_step)
    finally show ?thesis by simp
  qed
  have c2: "map fst ((201, BookingCreated ?nb ?msg) # resps) = replicate (length (r # rs)) 201"
    using ih(2) by simp
  have c3: "classes db' = classes db" using ih(3) by simp
  have c4: "bookings db' = bookings db @ (?nb # news)" using ih(4) by simp
  have c5: "map b_userId (?nb # news) = map (\<lambda>r. fst (snd r)) (r # rs)"
    using ih(5) r by (simp add: newBookingRow_def)
  have c6: "map b_bookedAt (?nb # news) = map fst (r # rs)"
    using ih(6) r by (simp add: newBookingRow_def)
  have c7: "\<forall>b\<in>set (?nb # news). b_classId b = cid"
    using ih(7) by (simp add: newBookingRow_def)
  from run c2 c3 c4 c5 c6 c7 sts show ?case by blast
qed


subsection \<open>Admission\<close>

text \<open>
  \<^bold>\<open>C1.\<close> A caller who already holds a non-cancelled booking for the class is to be
  refused with 400 and no row stored. The handler looks for a Confirmed booking only:
  user 1, whose booking for class 1 is on the waitlist, books class 1 again, is answered
  201 and is stored a second time on the waitlist.
\<close>

theorem createBooking_waitlisted_user_books_again:
  "createBooking noBookingFaults 30 1 (Some \<lparr> cb_classId = 1, cb_notes = None \<rparr>) waitlistedDb =
     ((201, BookingCreated
              \<lparr> b_id = 3, b_userId = 1, b_classId = 1, b_status = Waitlist, b_notes = None,
                b_bookedAt = 30, b_cancelledAt = None, b_updatedAt = 30 \<rparr>
              ''Added to waitlist''),
      \<lparr> classes = [\<lparr> c_id = 1, c_capacity = 1, c_isActive = True \<rparr>],
        bookings =
          [\<lparr> b_id = 1, b_userId = 2, b_classId = 1, b_status = Confirmed, b_notes = None,
             b_bookedAt = 10, b_cancelledAt = None, b_updatedAt = 10 \<rparr>,
           \<lparr> b_id = 2, b_userId = 1, b_classId = 1, b_status = Waitlist, b_notes = None,
             b_bookedAt = 20, b_cancelledAt = None, b_updatedAt = 20 \<rparr>,
           \<lparr> b_id = 3, b_userId = 1, b_classId = 1, b_status = Waitlist, b_notes = None,
             b_bookedAt = 30, b_cancelledAt = None, b_updatedAt = 30 \<rparr>],
        nextBookingId = 4 \<rparr>)"
  by (simp add: createBooking_def noBookingFaults_def waitlistedDb_def Let_def isConfirmedIn_def)

text \<open>
  The second waitlist entry is not idle: in a class of capacity 2, users 2 and 3 book,
  user 1 books twice, then users 2 and 3 cancel. Both promotions go to user 1, who ends
  with two Confirmed bookings for the class.
\<close>

lemma waitlisted_twice_then_confirmed_twice:
  "map (\<lambda>b. (b_id b, b_userId b, b_status b))
     (bookings (snd (cancelBooking noBookingFaults 60 3 2
        (snd (cancelBooking noBookingFaults 50 2 1
          (snd (createBookings noBookingFaults
                  (requestsFor 1 [(10, 2, None), (20, 3, None), (30, 1, None), (40, 1, None)])
                  emptyClassDb)))))))
   = [(1, 2, Cancelled), (2, 3, Cancelled), (3, 1, Confirmed), (4, 1, Confirmed)]"
  by (simp add: createBooking_def cancelBooking_def noBookingFaults_def emptyClassDb_def
        requestsFor_def Let_def isConfirmedIn_def isWaitlistIn_def updateWhereId_def
        cancelRow_def promoteRow_def firstRow_def)

text \<open>
  \<^bold>\<open>C3.\<close> A booking that is created is Confirmed exactly when the Confirmed bookings of
  the class number strictly less than its capacity, and Waitlisted otherwise. Hence \<open>N\<close>
  requests in sequence by distinct users for a class of capacity \<open>C\<close> that has no
  bookings are all answered 201 and leave the class with the requests' rows in request
  order, the first \<open>C\<close> Confirmed and the other \<open>N - C\<close> Waitlisted.
\<close>

theorem createBooking_admission:
  assumes cls: "filter (\<lambda>c. c_id c = cid) (classes db) = cls # others"
  shows "(\<forall>throws now userId data nb msg db1.
            cb_classId data = cid \<longrightarrow>
            createBooking throws now userId (Some data) db = ((201, BookingCreated nb msg), db1) \<longrightarrow>
            bookings db1 = bookings db @ [nb]
            \<and> (b_status nb = Confirmed \<longleftrightarrow> int (confirmedCount cid db) < c_capacity cls)
            \<and> (b_status nb = Waitlist \<longleftrightarrow> \<not> int (confirmedCount cid db) < c_capacity cls))
       \<and> (\<forall>throws rs C resps db'.
            c_isActive cls \<longrightarrow> c_capacity cls = int C \<longrightarrow> (\<forall>s. \<not> throws s) \<longrightarrow>
            (\<forall>b\<in>set (bookings db). b_classId b \<noteq> cid) \<longrightarrow>
            distinct (map (\<lambda>r. fst (snd r)) rs) \<longrightarrow>
            createBookings throws (requestsFor cid rs) db = (resps, db') \<longrightarrow>
            map fst resps = replicate (length rs) 201
            \<and> map b_userId (filter (\<lambda>b. b_classId b = cid) (bookings db'))
                 = map (\<lambda>r. fst (snd r)) rs
            \<and> map b_bookedAt (filter (\<lambda>b. b_classId b = cid) (bookings db')) = map fst rs
            \<and> map b_status (filter (\<lambda>b. b_classId b = cid) (bookings db'))
                 = replicate (min C (length rs)) Confirmed @ replicate (length rs - C) Waitlist
            \<and> confirmedCount cid db' = min C (length rs)
            \<and> length (filter (isWaitlistIn cid) (bookings db')) = length rs - C)"
proof (intro conjI allI impI)
  fix throws now userId data nb msg db1
  assume d: "cb_classId data = cid"
    and run: "createBooking throws now userId (Some data) db = ((201, BookingCreated nb msg), db1)"
  from createBooking_201[OF run] d cls
  have nb: "nb = newBookingRow now userId data (admitStatus cid cls db) db"
    and db1: "db1 = db\<lparr> bookings := bookings db @ [nb], nextBookingId := nextBookingId db + 1 \<rparr>"
    by auto
  from db1 show "bookings db1 = bookings db @ [nb]" by simp
  from nb show "b_status nb = Confirmed \<longleftrightarrow> int (confirmedCount cid db) < c_capacity cls"
    by (simp add: newBookingRow_def admitStatus_def)
  from nb show "b_status nb = Waitlist \<longleftrightarrow> \<not> int (confirmedCount cid db) < c_capacity cls"
    by (simp add: newBookingRow_def admitStatus_def)
next
  fix throws rs C resps db'
  assume act: "c_isActive cls" and cap: "c_capacity cls = int C" and ok: "\<forall>s. \<not> throws s"
    and empty: "\<forall>b\<in>set (bookings db). b_classId b \<noteq> cid"
    and dist: "distinct (map (\<lambda>r. fst (snd r)) rs)"
    and run: "createBookings throws (requestsFor cid rs) db = (resps, db')"
  from empty have fresh: "\<forall>b\<in>set (bookings db). b_classId b = cid
                  \<longrightarrow> b_userId b \<notin> set (map (\<lambda>r. fst (snd r)) rs)" by blast
  from empty have zero: "confirmedCount cid db = 0"
    by (auto simp: confirmedCount_def isConfirmedIn_def filter_empty_conv)
  from empty have none: "filter (\<lambda>b. b_classId b = cid) (bookings db) = []"
    by (auto simp: filter_empty_conv)
  from createBookings_sequence[OF cls act cap ok dist fresh] run zero
  obtain news where
    r: "map fst resps = replicate (length rs) 201"
    and b: "bookings db' = bookings db @ news"
    and u: "map b_userId news = map (\<lambda>r. fst (snd r)) rs"
    and t: "map b_bookedAt news = map fst rs"
    and c: "\<forall>b\<in>set news. b_classId b = cid"
    and s: "map b_status news
             = replicate (min C (length rs)) Confirmed @ replicate (length rs - C) Waitlist"
    by auto
  from c have all: "filter (\<lambda>b. b_classId b = cid) news = news" by (simp add: filter_id_conv)
  have mine: "filter (\<lambda>b. b_classId b = cid) (bookings db') = news"
    using b none all by simp
  have len: "length news = length rs" using u by (metis length_map)
  have fc: "filter (isConfirmedIn cid) (bookings db') = filter (\<lambda>b. b_status b = Confirmed) news"
    using b c empty by (auto simp: isConfirmedIn_def filter_empty_conv intro: filter_cong)
  have fw: "filter (isWaitlistIn cid) (bookings db') = filter (\<lambda>b. b_status b = Waitlist) news"
    using b c empty by (auto simp: isWaitlistIn_def filter_empty_conv intro: filter_cong)
  have lc: "length (filter (\<lambda>b. b_status b = Confirmed) news)
             = length (filter (\<lambda>x. x = Confirmed) (map b_status news))"
    by (simp add: filter_map comp_def)
  have lw: "length (filter (\<lambda>b. b_status b = Waitlist) news)
             = length (filter (\<lambda>x. x = Waitlist) (map b_status news))"
    by (simp add: filter_map comp_def)
  show "map fst resps = replicate (length rs) 201" by (rule r)
  show "map b_userId (filter (\<lambda>b. b_classId b = cid) (bookings db')) = map (\<lambda>r. fst (snd r)) rs"
    using mine u by simp
  show "map b_bookedAt (filter (\<lambda>b. b_classId b = cid) (bookings db')) = map fst rs"
    using mine t by simp
  show "map b_status (filter (\<lambda>b. b_classId b = cid) (bookings db'))
          = replicate (min C (length rs)) Confirmed @ replicate (length rs - C) Waitlist"
    using mine s by simp
  show "confirmedCount cid db' = min C (length rs)"
    unfolding confirmedCount_def fc lc s by simp
  show "length (filter (isWaitlistIn cid) (bookings db')) = length rs - C"
    unfolding fw lw s by simp
qed

theorem createBooking_admission_witness:
  "filter (\<lambda>c. c_id c = 1) (classes emptyClassDb)
     = [\<lparr> c_id = 1, c_capacity = 2, c_isActive = True \<rparr>]
   \<and> distinct (map (\<lambda>r. fst (snd r)) [(10, 1, None), (20, 2, None), (30, 3::int, None::string option)])
   \<and> map fst (fst (createBookings noBookingFaults
         (requestsFor 1 [(10, 1, None), (20, 2, None), (30, 3, None)]) emptyClassDb))
       = [201, 201, 201]
   \<and> map b_userId (filter (\<lambda>b. b_classId b = 1) (bookings (snd (createBookings noBookingFaults
         (requestsFor 1 [(10, 1, None), (20, 2, None), (30, 3, None)]) emptyClassDb))))
       = [1, 2, 3]
   \<and> map b_status (filter (\<lambda>b. b_classId b = 1) (bookings (snd (createBookings noBookingFaults
         (requestsFor 1 [(10, 1, None), (20, 2, None), (30, 3, None)]) emptyClassDb))))
       = [Confirmed, Confirmed, Waitlist]"
proof -
  let ?rs = "[(10, 1, None), (20, 2, None), (30, 3::int, None::string option)] :: (int \<times> int \<times> string option) list"
  let ?run = "createBookings noBookingFaults (requestsFor 1 ?rs) emptyClassDb"
  have cls: "filter (\<lambda>c. c_id c = 1) (classes emptyClassDb)
     = \<lparr> c_id = 1, c_capacity = 2, c_isActive = True \<rparr> # []"
    by (simp add: emptyClassDb_def)
  have act: "c_isActive \<lparr> c_id = 1, c_capacity = 2, c_isActive = True \<rparr>" by simp
  have cap: "c_capacity \<lparr> c_id = 1, c_capacity = 2, c_isActive = True \<rparr> = int 2" by simp
  have ok: "\<forall>s. \<not> noBookingFaults s" by (simp add: noBookingFaults_def)
  have empty: "\<forall>b\<in>set (bookings emptyClassDb). b_classId b \<noteq> 1" by (simp add: emptyClassDb_def)
  have dist: "distinct (map (\<lambda>r. fst (snd r)) ?rs)" by simp
  have run: "?run = (fst ?run, snd ?run)" by simp
  from createBooking_admission[OF cls] act cap ok empty dist run
  have "map fst (fst ?run) = replicate (length ?rs) 201
      \<and> map b_userId (filter (\<lambda>b. b_classId b = 1) (bookings (snd ?run))) = map (\<lambda>r. fst (snd r)) ?rs
      \<and> map b_status (filter (\<lambda>b. b_classId b = 1) (bookings (snd ?run)))
           = replicate (min 2 (length ?rs)) Confirmed @ replicate (length ?rs - 2) Waitlist"
    by blast
  then show ?thesis using cls dist by (simp add: eval_nat_numeral)
qed

subsection \<open>Cancelling a booking\<close>

text \<open>Cancelling changes neither the booking times nor the identifiers of the table.\<close>

lemma updateWhereId_keys:
  "map b_bookedAt (updateWhereId i (cancelRow now) rows) = map b_bookedAt rows"
  "map b_bookedAt (updateWhereId i (promoteRow now) rows) = map b_bookedAt rows"
  "map b_id (updateWhereId i (cancelRow now) rows) = map b_id rows"
  "map b_id (updateWhereId i (promoteRow now) rows) = map b_id rows"
  by (simp_all add: updateWhereId_def cancelRow_def promoteRow_def comp_def if_distrib cong: if_cong)

lemma cancelBooking_keeps_order_and_ids:
  "map b_bookedAt (bookings (snd (cancelBooking throws now userId bookingId db)))
     = map b_bookedAt (bookings db)
   \<and> map b_id (bookings (snd (cancelBooking throws now userId bookingId db)))
     = map b_id (bookings db)
   \<and> nextBookingId (snd (cancelBooking throws now userId bookingId db)) = nextBookingId db"
  unfolding cancelBooking_def
  by (simp add: Let_def updateWhereId_keys split: list.splits)

text \<open>
  With distinct booking identifiers, cancelling a Confirmed booking of a class with a
  waitlist cancels that booking and promotes the first waitlisted booking of the class in
  table order; every other row is unchanged.
\<close>

lemma cancelBooking_promotes_first_in_table:
  assumes ids: "distinct (map b_id (bookings db))"
    and found: "filter (\<lambda>b. b_id b = bookingId \<and> b_userId b = userId) (bookings db)
                  = booking # rest"
    and conf: "b_status booking = Confirmed"
    and wl: "filter (isWaitlistIn (b_classId booking)) (bookings db) = w # ws"
    and ok: "\<not> throws SelectBooking" "\<not> throws UpdateCancel" "\<not> throws SelectWaitlist"
            "\<not> throws UpdatePromote"
  shows "cancelBooking throws now userId bookingId db =
           ((200, BookingUpdated (Some (cancelRow now booking))),
            db\<lparr> bookings := map (\<lambda>x. if x = booking then cancelRow now x
                                       else if x = w then promoteRow now x else x)
                                 (bookings db) \<rparr>)
         \<and> (\<exists>pre post. bookings db = pre @ w # post
               \<and> (\<forall>x\<in>set pre. \<not> isWaitlistIn (b_classId booking) x))
         \<and> (sorted (map b_bookedAt (bookings db)) \<longrightarrow>
               (\<forall>x\<in>set (bookings db). isWaitlistIn (b_classId booking) x
                    \<longrightarrow> b_bookedAt w \<le> b_bookedAt x))"
proof -
  from filter_Cons_mem[OF found]
  have bmem: "booking \<in> set (bookings db)" and bid: "b_id booking = bookingId" by auto
  from filter_Cons_mem[OF wl]
  have wmem: "w \<in> set (bookings db)" and wW: "isWaitlistIn (b_classId booking) w" by auto
  from wW conf have neq: "w \<noteq> booking" by (auto simp: isWaitlistIn_def)
  with ids bmem wmem have idneq: "b_id w \<noteq> b_id booking" using distinct_id_eq by blast
  let ?rows1 = "map (\<lambda>x. if x = booking then cancelRow now x else x) (bookings db)"
  have u1: "updateWhereId bookingId (cancelRow now) (bookings db) = ?rows1"
    using updateWhereId_distinct[OF ids bmem] bid by simp
  have f1: "filter (\<lambda>b. b_id b = bookingId) ?rows1 = [cancelRow now booking]"
    using filter_id_after_cancel[OF ids bmem] bid by simp
  have w1: "filter (isWaitlistIn (b_classId booking)) ?rows1 = w # ws"
    using filter_waitlist_after_cancel[of booking] conf wl by simp
  have u2: "updateWhereId (b_id w) (promoteRow now) ?rows1 =
      map (\<lambda>x. if x = booking then cancelRow now x else if x = w then promoteRow now x else x)
          (bookings db)"
    unfolding updateWhereId_def map_map
  proof (intro map_cong refl)
    fix x assume "x \<in> set (bookings db)"
    then show "((\<lambda>b. if b_id b = b_id w then promoteRow now b else b)
                  \<circ> (\<lambda>x. if x = booking then cancelRow now x else x)) x
       = (if x = booking then cancelRow now x else if x = w then promoteRow now x else x)"
      using idneq distinct_id_eq[OF ids _ wmem] by (auto simp: cancelRow_def)
  qed
  have res: "cancelBooking throws now userId bookingId db =
           ((200, BookingUpdated (Some (cancelRow now booking))),
            db\<lparr> bookings := map (\<lambda>x. if x = booking then cancelRow now x
                                       else if x = w then promoteRow now x else x)
                                 (bookings db) \<rparr>)"
    unfolding cancelBooking_def using ok found conf
    by (simp add: Let_def u1 f1 w1 u2 firstRow_def)
  from filter_Cons_first[OF wl] obtain pre post where
    split: "bookings db = pre @ w # post" "\<forall>x\<in>set pre. \<not> isWaitlistIn (b_classId booking) x"
    by blast
  have "\<forall>x\<in>set (bookings db). isWaitlistIn (b_classId booking) x \<longrightarrow> b_bookedAt w \<le> b_bookedAt x"
    if srt: "sorted (map b_bookedAt (bookings db))"
  proof (intro ballI impI)
    fix x assume x: "x \<in> set (bookings db)" "isWaitlistIn (b_classId booking) x"
    with split have "x = w \<or> x \<in> set post" by auto
    moreover from srt split have "\<forall>y\<in>set post. b_bookedAt w \<le> b_bookedAt y"
      by (simp add: sorted_append)
    ultimately show "b_bookedAt w \<le> b_bookedAt x" by auto
  qed
  with res split show ?thesis by blast
qed

lemma scenario_reached: "runBookings scenarioRequests emptyClassDb = scenarioDb"
  by (simp add: scenarioRequests_def emptyClassDb_def scenarioDb_def createBooking_def
        noBookingFaults_def Let_def isConfirmedIn_def bookingA_def bookingB_def bookingC_def
        bookingD_def)

text \<open>
  The handlers keep the table in booking order as long as the clock does not run
  backwards: an insert appends a row with the current time and the next identifier, a
  cancellation changes neither booking times nor identifiers.
\<close>

lemma createBooking_keeps_bookingsInOrder:
  assumes "bookingsInOrder t db" and "t \<le> now"
  shows "bookingsInOrder now (snd (createBooking throws now userId body db))"
  using assms unfolding createBooking_def bookingsInOrder_def
  by (auto simp: Let_def sorted_append sorted_wrt_append split: option.splits list.splits)

lemma cancelBooking_keeps_bookingsInOrder:
  assumes "bookingsInOrder t db" and "t \<le> now"
  shows "bookingsInOrder now (snd (cancelBooking throws now' userId bookingId db))"
  using assms cancelBooking_keeps_order_and_ids[of throws now' userId bookingId db]
  unfolding bookingsInOrder_def by auto

lemma handleBooking_keeps_bookingsInOrder:
  assumes "bookingsInOrder t db" and "t \<le> requestTime r"
  shows "bookingsInOrder (requestTime r) (snd (handleBooking r db))"
proof -
  obtain throws now userId op where r: "r = (throws, now, userId, op)" by (cases r) auto
  show ?thesis
    using assms createBooking_keeps_bookingsInOrder cancelBooking_keeps_bookingsInOrder
    by (cases op) (auto simp: r requestTime_def)
qed

lemma runBookings_keeps_bookingsInOrder:
  assumes "bookingsInOrder t db" and "sorted (map requestTime reqs)"
    and "\<forall>r\<in>set reqs. t \<le> requestTime r"
  shows "\<exists>t'. bookingsInOrder t' (runBookings reqs db)"
  using assms
proof (induction reqs arbitrary: t db)
  case Nil
  then show ?case by auto
next
  case (Cons r reqs)
  have "bookingsInOrder (requestTime r) (snd (handleBooking r db))"
    using handleBooking_keeps_bookingsInOrder Cons.prems(1,3) by simp
  moreover have "sorted (map requestTime reqs)" using Cons.prems(2) by simp
  moreover have "\<forall>q\<in>set reqs. requestTime r \<le> requestTime q" using Cons.prems(2) by simp
  ultimately show ?case using Cons.IH by simp
qed

lemma runBookings_from_empty:
  assumes "bookings db0 = []" and "sorted (map requestTime reqs)"
  shows "\<exists>t. bookingsInOrder t (runBookings reqs db0)"
proof (cases reqs)
  case Nil
  with assms(1) show ?thesis by (auto simp: bookingsInOrder_def)
next
  case (Cons r rs)
  have "bookingsInOrder (requestTime r) db0" using assms(1) by (simp add: bookingsInOrder_def)
  moreover have "\<forall>q\<in>set reqs. requestTime r \<le> requestTime q"
    using assms(2) Cons by auto
  ultimately show ?thesis using runBookings_keeps_bookingsInOrder assms(2) by blast
qed

lemma first_match_is_earliest:
  assumes bo: "bookingsInOrder t db" and f: "filter P (bookings db) = w # ws"
  shows "\<forall>x\<in>set (bookings db). P x \<longrightarrow> x \<noteq> w \<longrightarrow>
           b_bookedAt w \<le> b_bookedAt x \<and> b_id w < b_id x"
proof (intro ballI impI)
  fix x assume x: "x \<in> set (bookings db)" "P x" "x \<noteq> w"
  from filter_Cons_first[OF f] obtain pre post where
    split: "bookings db = pre @ w # post" "\<forall>y\<in>set pre. \<not> P y" by blast
  with x have xp: "x \<in> set post" by auto
  from bo split(1) have "\<forall>y\<in>set post. b_bookedAt w \<le> b_bookedAt y"
    and "\<forall>y\<in>set post. b_id w < b_id y"
    by (auto simp: bookingsInOrder_def sorted_append sorted_wrt_append)
  with xp show "b_bookedAt w \<le> b_bookedAt x \<and> b_id w < b_id x" by blast
qed

lemma bookingsInOrder_distinct: "bookingsInOrder t db \<Longrightarrow> distinct (map b_id (bookings db))"
proof -
  assume "bookingsInOrder t db"
  then have "sorted_wrt (<) (map b_id (bookings db))" by (simp add: bookingsInOrder_def)
  then show ?thesis by (simp add: strict_sorted_iff)
qed

text \<open>
  \<^bold>\<open>C2.\<close> In every table the handlers have built from an empty one under a clock that
  does not run backwards: cancelling a Confirmed booking of a class with a waitlist is
  answered 200, cancels that booking and promotes exactly one booking \<open>w\<close>, setting its
  status to Confirmed; every other row is unchanged. \<open>w\<close> is Waitlisted for the class
  and is its earliest-booked waitlist entry: every other waitlisted booking of the class
  was booked at the same time or later and has a greater identifier.
\<close>

theorem cancelBooking_promotes_earliest_waitlisted:
  assumes start: "bookings db0 = []"
    and clock: "sorted (map requestTime reqs)"
    and reach: "db = runBookings reqs db0"
    and found: "filter (\<lambda>b. b_id b = bookingId \<and> b_userId b = userId) (bookings db)
                  = booking # rest"
    and conf: "b_status booking = Confirmed"
    and wl: "filter (isWaitlistIn (b_classId booking)) (bookings db) = w # ws"
    and ok: "\<not> throws SelectBooking" "\<not> throws UpdateCancel" "\<not> throws SelectWaitlist"
            "\<not> throws UpdatePromote"
  shows "cancelBooking throws now userId bookingId db =
           ((200, BookingUpdated (Some
               (booking\<lparr> b_status := Cancelled, b_cancelledAt := Some now, b_updatedAt := now \<rparr>))),
            db\<lparr> bookings :=
                  map (\<lambda>x. if x = booking
                            then x\<lparr> b_status := Cancelled, b_cancelledAt := Some now,
                                    b_updatedAt := now \<rparr>
                            else if x = w then x\<lparr> b_status := Confirmed, b_updatedAt := now \<rparr>
                            else x)
                      (bookings db) \<rparr>)
         \<and> w \<in> set (bookings db) \<and> w \<noteq> booking
         \<and> b_classId w = b_classId booking \<and> b_status w = Waitlist
         \<and> (\<forall>x\<in>set (bookings db). isWaitlistIn (b_classId booking) x \<longrightarrow> x \<noteq> w \<longrightarrow>
               b_bookedAt w \<le> b_bookedAt x \<and> b_id w < b_id x)"
proof -
  from runBookings_from_empty[OF start clock] reach obtain t where bo: "bookingsInOrder t db"
    by blast
  from bookingsInOrder_distinct[OF bo] have ids: "distinct (map b_id (bookings db))" .
  from cancelBooking_promotes_first_in_table[OF ids found conf wl ok, of now]
  have res: "cancelBooking throws now userId bookingId db =
           ((200, BookingUpdated (Some (cancelRow now booking))),
            db\<lparr> bookings := map (\<lambda>x. if x = booking then cancelRow now x
                                       else if x = w then promoteRow now x else x)
                                 (bookings db) \<rparr>)"
    by (rule conjunct1)
  from filter_Cons_mem[OF wl] have wmem: "w \<in> set (bookings db)"
    and wW: "isWaitlistIn (b_classId booking) w" by auto
  from wW conf have neq: "w \<noteq> booking" by (auto simp: isWaitlistIn_def)
  from wW have wc: "b_classId w = b_classId booking" "b_status w = Waitlist"
    by (auto simp: isWaitlistIn_def)
  note early = first_match_is_earliest[OF bo wl]
  from res wmem neq wc early show ?thesis
    unfolding cancelRow_def promoteRow_def by blast
qed

theorem cancelBooking_promotes_earliest_waitlisted_witness:
  "bookings emptyClassDb = []
   \<and> sorted (map requestTime scenarioRequests)
   \<and> scenarioDb = runBookings scenarioRequests emptyClassDb
   \<and> filter (\<lambda>b. b_id b = 1 \<and> b_userId b = 1) (bookings scenarioDb) = [bookingA]
   \<and> b_status bookingA = Confirmed
   \<and> filter (isWaitlistIn (b_classId bookingA)) (bookings scenarioDb) = [bookingC, bookingD]
   \<and> cancelBooking noBookingFaults 50 1 1 scenarioDb =
        ((200, BookingUpdated (Some
            \<lparr> b_id = 1, b_userId = 1, b_classId = 1, b_status = Cancelled, b_notes = None,
              b_bookedAt = 10, b_cancelledAt = Some 50, b_updatedAt = 50 \<rparr>)),
         \<lparr> classes = [\<lparr> c_id = 1, c_capacity = 2, c_isActive = True \<rparr>],
           bookings =
             [\<lparr> b_id = 1, b_userId = 1, b_classId = 1, b_status = Cancelled, b_notes = None,
                b_bookedAt = 10, b_cancelledAt = Some 50, b_updatedAt = 50 \<rparr>,
              \<lparr> b_id = 2, b_userId = 2, b_classId = 1, b_status = Confirmed, b_notes = None,
                b_bookedAt = 20, b_cancelledAt = None, b_updatedAt = 20 \<rparr>,
              \<lparr> b_id = 3, b_userId = 3, b_classId = 1, b_status = Confirmed, b_notes = None,
                b_bookedAt = 30, b_cancelledAt = None, b_updatedAt = 50 \<rparr>,
              \<lparr> b_id = 4, b_userId = 4, b_classId = 1, b_status = Waitlist, b_notes = None,
                b_bookedAt = 40, b_cancelledAt = None, b_updatedAt = 40 \<rparr>],
           nextBookingId = 5 \<rparr>)
   \<and> b_bookedAt bookingC \<le> b_bookedAt bookingD \<and> b_id bookingC < b_id bookingD"
proof -
  have start: "bookings emptyClassDb = []" by (simp add: emptyClassDb_def)
  have clock: "sorted (map requestTime scenarioRequests)"
    by (simp add: scenarioRequests_def requestTime_def)
  have reach: "scenarioDb = runBookings scenarioRequests emptyClassDb"
    by (simp add: scenario_reached)
  have found: "filter (\<lambda>b. b_id b = 1 \<and> b_userId b = 1) (bookings scenarioDb) = bookingA # []"
    by (simp add: scenarioDb_def bookingA_def bookingB_def bookingC_def bookingD_def)
  have conf: "b_status bookingA = Confirmed" by (simp add: bookingA_def)
  have wl: "filter (isWaitlistIn (b_classId bookingA)) (bookings scenarioDb)
              = bookingC # [bookingD]"
    by (simp add: scenarioDb_def isWaitlistIn_def bookingA_def bookingB_def bookingC_def
          bookingD_def)
  have ok: "\<not> noBookingFaults SelectBooking" "\<not> noBookingFaults UpdateCancel"
    "\<not> noBookingFaults SelectWaitlist" "\<not> noBookingFaults UpdatePromote"
    by (simp_all add: noBookingFaults_def)
  have dmem: "bookingD \<in> set (bookings scenarioDb)" "isWaitlistIn (b_classId bookingA) bookingD"
    "bookingD \<noteq> bookingC"
    by (simp_all add: scenarioDb_def isWaitlistIn_def bookingA_def bookingC_def bookingD_def)
  note T = cancelBooking_promotes_earliest_waitlisted
             [OF start clock reach found conf wl ok, of 50]
  from T have run: "cancelBooking noBookingFaults 50 1 1 scenarioDb =
           ((200, BookingUpdated (Some
               (bookingA\<lparr> b_status := Cancelled, b_cancelledAt := Some 50, b_updatedAt := 50 \<rparr>))),
            scenarioDb\<lparr> bookings :=
                  map (\<lambda>x. if x = bookingA
                            then x\<lparr> b_status := Cancelled, b_cancelledAt := Some 50,
                                    b_updatedAt := 50 \<rparr>
                            else if x = bookingC then x\<lparr> b_status := Confirmed, b_updatedAt := 50 \<rparr>
                            else x)
                      (bookings scenarioDb) \<rparr>)"
    by (rule conjunct1)
  from T dmem have le: "b_bookedAt bookingC \<le> b_bookedAt bookingD \<and> b_id bookingC < b_id bookingD"
    by blast
  have final: "cancelBooking noBookingFaults 50 1 1 scenarioDb =
        ((200, BookingUpdated (Some
            \<lparr> b_id = 1, b_userId = 1, b_classId = 1, b_status = Cancelled, b_notes = None,
              b_bookedAt = 10, b_cancelledAt = Some 50, b_updatedAt = 50 \<rparr>)),
         \<lparr> classes = [\<lparr> c_id = 1, c_capacity = 2, c_isActive = True \<rparr>],
           bookings =
             [\<lparr> b_id = 1, b_userId = 1, b_classId = 1, b_status = Cancelled, b_notes = None,
                b_bookedAt = 10, b_cancelledAt = Some 50, b_updatedAt = 50 \<rparr>,
              \<lparr> b_id = 2, b_userId = 2, b_classId = 1, b_status = Confirmed, b_notes = None,
                b_bookedAt = 20, b_cancelledAt = None, b_updatedAt = 20 \<rparr>,
              \<lparr> b_id = 3, b_userId = 3, b_classId = 1, b_status = Confirmed, b_notes = None,
                b_bookedAt = 30, b_cancelledAt = None, b_updatedAt = 50 \<rparr>,
              \<lparr> b_id = 4, b_userId = 4, b_classId = 1, b_status = Waitlist, b_notes = None,
                b_bookedAt = 40, b_cancelledAt = None, b_updatedAt = 40 \<rparr>],
           nextBookingId = 5 \<rparr>)"
    unfolding run
    by (simp add: scenarioDb_def bookingA_def bookingB_def bookingC_def bookingD_def)
  from start clock reach found conf wl final le show ?thesis by simp
qed

text \<open>
  The choice follows the table, not the \<open>bookedAt\<close> column: the waitlist query has no
  ordering. On a table that is not in booking order, which the handlers do not build
  while the clock does not run backwards, the first waitlisted row is promoted although
  a later row was booked earlier.
\<close>

lemma cancelBooking_follows_table_order:
  "cancelBooking noBookingFaults 40 1 1 outOfOrderDb =
     ((200, BookingUpdated (Some
         \<lparr> b_id = 1, b_userId = 1, b_classId = 1, b_status = Cancelled, b_notes = None,
           b_bookedAt = 10, b_cancelledAt = Some 40, b_updatedAt = 40 \<rparr>)),
      \<lparr> classes = [\<lparr> c_id = 1, c_capacity = 1, c_isActive = True \<rparr>],
        bookings =
          [\<lparr> b_id = 1, b_userId = 1, b_classId = 1, b_status = Cancelled, b_notes = None,
             b_bookedAt = 10, b_cancelledAt = Some 40, b_updatedAt = 40 \<rparr>,
           \<lparr> b_id = 2, b_userId = 2, b_classId = 1, b_status = Confirmed, b_notes = None,
             b_bookedAt = 30, b_cancelledAt = None, b_updatedAt = 40 \<rparr>,
           \<lparr> b_id = 3, b_userId = 3, b_classId = 1, b_status = Waitlist, b_notes = None,
             b_bookedAt = 20, b_cancelledAt = None, b_updatedAt = 20 \<rparr>],
        nextBookingId = 4 \<rparr>)"
  by (simp add: cancelBooking_def noBookingFaults_def outOfOrderDb_def Let_def
        updateWhereId_def cancelRow_def promoteRow_def isWaitlistIn_def firstRow_def)

text \<open>
  \<^bold>\<open>C9.\<close> With distinct booking identifiers, cancelling a Waitlisted booking, or a
  Confirmed booking of a class that has no waitlist, is answered 200, sets that booking
  to Cancelled and leaves every other row of the table as it was: nobody is promoted.
\<close>

theorem cancelBooking_changes_only_that_booking:
  assumes ids: "distinct (map b_id (bookings db))"
    and found: "filter (\<lambda>b. b_id b = bookingId \<and> b_userId b = userId) (bookings db)
                  = booking # rest"
    and st: "b_status booking = Waitlist
             \<or> (b_status booking = Confirmed
                 \<and> filter (isWaitlistIn (b_classId booking)) (bookings db) = [])"
    and ok: "\<not> throws SelectBooking" "\<not> throws UpdateCancel" "\<not> throws SelectWaitlist"
  shows "cancelBooking throws now userId bookingId db =
           ((200, BookingUpdated (Some (cancelRow now booking))),
            db\<lparr> bookings := map (\<lambda>x. if x = booking then cancelRow now x else x)
                                 (bookings db) \<rparr>)
         \<and> b_status (cancelRow now booking) = Cancelled"
proof -
  from filter_Cons_mem[OF found]
  have bmem: "booking \<in> set (bookings db)" and bid: "b_id booking = bookingId" by auto
  let ?rows1 = "map (\<lambda>x. if x = booking then cancelRow now x else x) (bookings db)"
  have u1: "updateWhereId bookingId (cancelRow now) (bookings db) = ?rows1"
    using updateWhereId_distinct[OF ids bmem] bid by simp
  have f1: "filter (\<lambda>b. b_id b = bookingId) ?rows1 = [cancelRow now booking]"
    using filter_id_after_cancel[OF ids bmem] bid by simp
  have c: "b_status (cancelRow now booking) = Cancelled" by (simp add: cancelRow_def)
  from st have "cancelBooking throws now userId bookingId db =
           ((200, BookingUpdated (Some (cancelRow now booking))), db\<lparr> bookings := ?rows1 \<rparr>)"
  proof
    assume "b_status booking = Waitlist"
    then show ?thesis
      unfolding cancelBooking_def using ok found
      by (simp add: Let_def u1 f1 firstRow_def)
  next
    assume a: "b_status booking = Confirmed
                 \<and> filter (isWaitlistIn (b_classId booking)) (bookings db) = []"
    then have w1: "filter (isWaitlistIn (b_classId booking)) ?rows1 = []"
      using filter_waitlist_after_cancel[of booking] by simp
    from a show ?thesis
      unfolding cancelBooking_def using ok found
      by (simp add: Let_def u1 f1 w1 firstRow_def)
  qed
  with c show ?thesis by simp
qed

theorem cancelBooking_changes_only_that_booking_witness:
  "distinct (map b_id (bookings scenarioDb))
   \<and> filter (\<lambda>b. b_id b = 3 \<and> b_userId b = 3) (bookings scenarioDb) = [bookingC]
   \<and> b_status bookingC = Waitlist
   \<and> cancelBooking noBookingFaults 50 3 3 scenarioDb =
        ((200, BookingUpdated (Some (cancelRow 50 bookingC))),
         scenarioDb\<lparr> bookings := [bookingA, bookingB, cancelRow 50 bookingC, bookingD] \<rparr>)
   \<and> b_status (cancelRow 50 bookingC) = Cancelled"
proof -
  have ids: "distinct (map b_id (bookings scenarioDb))"
    by (simp add: scenarioDb_def bookingA_def bookingB_def bookingC_def bookingD_def)
  have found: "filter (\<lambda>b. b_id b = 3 \<and> b_userId b = 3) (bookings scenarioDb) = bookingC # []"
    by (simp add: scenarioDb_def bookingA_def bookingB_def bookingC_def bookingD_def)
  have wait: "b_status bookingC = Waitlist" by (simp add: bookingC_def)
  then have st: "b_status bookingC = Waitlist
             \<or> (b_status bookingC = Confirmed
                 \<and> filter (isWaitlistIn (b_classId bookingC)) (bookings scenarioDb) = [])"
    by (rule disjI1)
  have ok: "\<not> noBookingFaults SelectBooking" "\<not> noBookingFaults UpdateCancel"
    "\<not> noBookingFaults SelectWaitlist"
    by (simp_all add: noBookingFaults_def)
  have rows: "map (\<lambda>x. if x = bookingC then cancelRow 50 x else x) (bookings scenarioDb)
              = [bookingA, bookingB, cancelRow 50 bookingC, bookingD]"
    by (simp add: scenarioDb_def bookingA_def bookingB_def bookingC_def bookingD_def)
  from cancelBooking_changes_only_that_booking[OF ids found st ok, of 50]
  have "cancelBooking noBookingFaults 50 3 3 scenarioDb =
        ((200, BookingUpdated (Some (cancelRow 50 bookingC))),
         scenarioDb\<lparr> bookings := [bookingA, bookingB, cancelRow 50 bookingC, bookingD] \<rparr>)
       \<and> b_status (cancelRow 50 bookingC) = Cancelled"
    unfolding rows .
  with ids found wait show ?thesis by simp
qed


section \<open>Properties of the payment webhook\<close>

subsection \<open>The handler and its envelope\<close>

lemma respond_simps [simp]:
  "respond (Returned, db) = ((200, Received), db)"
  "respond (Threw, db) = ((500, WebhookError ''Webhook processing failed''), db)"
  by (simp_all add: respond_def)

lemma respond_200: "respond r = ((200, b), db') \<longleftrightarrow> r = (Returned, db') \<and> b = Received"
  by (cases r; cases "fst r") (auto simp: respond_def)

lemma webhook_payment:
  "validEnvelope body = Some (''payment'', i) \<Longrightarrow>
     webhook env now body db = respond (processPaymentWebhook env now i (e_action body) db)"
  by (simp add: webhook_def)

lemma webhook_not_payment:
  "validEnvelope body = Some (type, i) \<Longrightarrow> type \<noteq> ''payment'' \<Longrightarrow>
     webhook env now body db = ((200, Received), db)"
  by (simp add: webhook_def processSubscriptionWebhook_def processPreapprovalWebhook_def)

lemma webhook_invalid:
  "validEnvelope body = None \<Longrightarrow>
     webhook env now body db = ((400, WebhookError ''Invalid webhook structure''), db)"
  by (simp add: webhook_def)

lemma validEnvelope_None_iff:
  "validEnvelope body = None \<longleftrightarrow>
     \<not> truthy (e_type body) \<or> (case e_data body of None \<Rightarrow> True | Some d \<Rightarrow> \<not> truthy (d_id d))"
  by (auto simp: validEnvelope_def truthy_def split: option.splits)

lemma webhook_400_iff:
  "fst (fst (webhook env now body db)) = 400 \<longleftrightarrow> validEnvelope body = None"
proof (cases "validEnvelope body")
  case None then show ?thesis by (simp add: webhook_invalid)
next
  case (Some a)
  obtain type i where a: "a = (type, i)" by (cases a)
  show ?thesis
  proof (cases "type = ''payment''")
    case True
    then show ?thesis using Some a
      by (cases "processPaymentWebhook env now i (e_action body) db";
          cases "fst (processPaymentWebhook env now i (e_action body) db)")
         (auto simp: webhook_payment)
  next
    case False
    then show ?thesis using Some a webhook_not_payment[of body type i env now db] by simp
  qed
qed


subsection \<open>The paths through \<open>processPaymentWebhook\<close>\<close>

text \<open>What the two settling branches leave behind, case by case.\<close>

lemma processSubscriptionPaymentWebhook_cases:
  assumes "processSubscriptionPaymentWebhook env now sp newStatus mp action db = (out, db')"
  shows "(db' = db \<and> (out = Returned \<longrightarrow> sp_status sp = newStatus))
       \<or> (out = Threw \<and> sp_status sp \<noteq> newStatus
            \<and> db' = db\<lparr> issued := issued db @ [SubscriptionPaymentUpdate (sp_id sp)] \<rparr>)
       \<or> (\<exists>mpId obj. out = Returned \<and> sp_status sp \<noteq> newStatus
            \<and> \<not> dbThrows env UpdateSubscriptionPayment
            \<and> mp_id mp = Some mpId \<and> parseMetadata (sp_metadata sp) = Some obj
            \<and> db' = (let db1 = db\<lparr> issued := issued db @ [SubscriptionPaymentUpdate (sp_id sp)],
                         subscriptionPayments :=
                           map (\<lambda>r. if sp_id r = sp_id sp
                                     then spUpdate env now newStatus mp action mpId obj r else r)
                               (subscriptionPayments db) \<rparr>
                      in if newStatus = Approved \<and> sp_status sp \<noteq> Approved
                         then handleSubscriptionPaymentApproved env now sp db1 else db1))"
  using assms unfolding processSubscriptionPaymentWebhook_def
  by (auto simp: Let_def split: if_splits option.splits)

lemma settlePayment_cases:
  assumes "settlePayment env now cur newStatus mp i action ref db = (out, db')"
  shows "(db' = db \<and> (out = Returned \<longrightarrow> p_status cur = newStatus))
       \<or> (out = Threw \<and> p_status cur \<noteq> newStatus
            \<and> db' = db\<lparr> issued := issued db @ [PaymentUpdate (p_id cur)] \<rparr>)
       \<or> (\<exists>obj. out = Returned \<and> p_status cur \<noteq> newStatus
            \<and> \<not> dbThrows env UpdatePayment
            \<and> parseMetadata (p_metadata cur) = Some obj
            \<and> db' = db\<lparr> issued := issued db @ [PaymentUpdate (p_id cur)],
                         payments :=
                           map (\<lambda>r. if Some (p_id r) = parseInt env ref
                                     then pUpdate env now newStatus mp action i obj r else r)
                               (payments db) \<rparr>)"
  using assms unfolding settlePayment_def
  by (auto simp: Let_def handlePaymentApproved_def split: if_splits option.splits)

lemma processPaymentWebhook_found_subscriptionPayment:
  assumes "findById env i = GatewayPayment mp" "truthy (mp_external_reference mp)"
    and "\<not> dbThrows env SelectSubscriptionPayment"
    and "filter (\<lambda>r. Some (sp_id r) = parseInt env (orElse (mp_external_reference mp) []))
           (subscriptionPayments db) = sp # rest"
  shows "processPaymentWebhook env now i action db =
           processSubscriptionPaymentWebhook env now sp
             (mapMercadoPagoStatus (orElse (mp_status mp) ''pending'')) mp action db"
  using assms by (simp add: processPaymentWebhook_def Let_def)

lemma processPaymentWebhook_found_payment:
  assumes "findById env i = GatewayPayment mp" "truthy (mp_external_reference mp)"
    and "\<not> dbThrows env SelectSubscriptionPayment"
    and "filter (\<lambda>r. Some (sp_id r) = parseInt env (orElse (mp_external_reference mp) []))
           (subscriptionPayments db) = []"
    and "\<not> dbThrows env SelectPayment"
    and "filter (\<lambda>r. Some (p_id r) = parseInt env (orElse (mp_external_reference mp) []))
           (payments db) = cur # rest"
  shows "processPaymentWebhook env now i action db =
           settlePayment env now cur (mapMercadoPagoStatus (orElse (mp_status mp) ''pending''))
             mp i action (orElse (mp_external_reference mp) []) db"
  using assms by (simp add: processPaymentWebhook_def Let_def)

text \<open>
  Every run of \<open>processPaymentWebhook\<close> stops before a record is found, or is a run of
  one of the two settling branches.
\<close>

lemma processPaymentWebhook_paths:
  assumes run: "processPaymentWebhook env now i action db = (out, db')"
  shows "(db' = db \<and> (\<forall>now'. processPaymentWebhook env now' i action db = (out, db)))
       \<or> (\<exists>mp sp rest. findById env i = GatewayPayment mp
            \<and> truthy (mp_external_reference mp)
            \<and> \<not> dbThrows env SelectSubscriptionPayment
            \<and> filter (\<lambda>r. Some (sp_id r) = parseInt env (orElse (mp_external_reference mp) []))
                 (subscriptionPayments db) = sp # rest
            \<and> processSubscriptionPaymentWebhook env now sp
                 (mapMercadoPagoStatus (orElse (mp_status mp) ''pending'')) mp action db = (out, db'))
       \<or> (\<exists>mp cur rest. findById env i = GatewayPayment mp
            \<and> truthy (mp_external_reference mp)
            \<and> \<not> dbThrows env SelectSubscriptionPayment
            \<and> filter (\<lambda>r. Some (sp_id r) = parseInt env (orElse (mp_external_reference mp) []))
                 (subscriptionPayments db) = []
            \<and> \<not> dbThrows env SelectPayment
            \<and> filter (\<lambda>r. Some (p_id r) = parseInt env (orElse (mp_external_reference mp) []))
                 (payments db) = cur # rest
            \<and> settlePayment env now cur (mapMercadoPagoStatus (orElse (mp_status mp) ''pending''))
                 mp i action (orElse (mp_external_reference mp) []) db = (out, db'))"
proof (cases "findById env i")
  case GatewayThrows
  with run show ?thesis by (simp add: processPaymentWebhook_def)
next
  case GatewayNothing
  with run show ?thesis by (simp add: processPaymentWebhook_def)
next
  case (GatewayPayment mp)
  let ?ref = "orElse (mp_external_reference mp) []"
  show ?thesis
  proof (cases "truthy (mp_external_reference mp) \<and> \<not> dbThrows env SelectSubscriptionPayment")
    case False
    then consider "\<not> truthy (mp_external_reference mp)"
      | "truthy (mp_external_reference mp)" "dbThrows env SelectSubscriptionPayment" by blast
    then show ?thesis
    proof cases
      case 1
      with run GatewayPayment show ?thesis by (simp add: processPaymentWebhook_def)
    next
      case 2
      with run GatewayPayment show ?thesis by (simp add: processPaymentWebhook_def Let_def)
    qed
  next
    case True
    show ?thesis
    proof (cases "filter (\<lambda>r. Some (sp_id r) = parseInt env ?ref) (subscriptionPayments db)")
      case (Cons sp rest)
      with run processPaymentWebhook_found_subscriptionPayment[OF GatewayPayment _ _ Cons] True
      show ?thesis using GatewayPayment by auto
    next
      case Nil
      show ?thesis
      proof (cases "dbThrows env SelectPayment")
        case t: True
        with run GatewayPayment True Nil show ?thesis
          by (simp add: processPaymentWebhook_def Let_def)
      next
        case np: False
        show ?thesis
        proof (cases "filter (\<lambda>r. Some (p_id r) = parseInt env ?ref) (payments db)")
          case n2: Nil
          with run GatewayPayment True Nil np show ?thesis
            by (simp add: processPaymentWebhook_def Let_def)
        next
          case (Cons cur rest)
          with run processPaymentWebhook_found_payment[OF GatewayPayment _ _ Nil np Cons] True
          show ?thesis using GatewayPayment Nil np by auto
        qed
      qed
    qed
  qed
qed

subsection \<open>Approval edges and activation\<close>

lemma edges_same [simp]: "edges xs xs = []"
  by (induction xs) (auto simp: edges_def)

lemma edges_untouched:
  "\<forall>x\<in>set xs. sp_id x \<noteq> i \<Longrightarrow> edges xs (map (\<lambda>r. if sp_id r = i then f r else r) xs) = []"
  by (induction xs) (auto simp: edges_def)

lemma edges_update:
  assumes "distinct (map sp_id xs)" "sp \<in> set xs"
  shows "edges xs (map (\<lambda>r. if sp_id r = sp_id sp then f r else r) xs)
         = (if sp_status sp \<noteq> Approved \<and> sp_status (f sp) = Approved
            then [sp_subscriptionId sp] else [])"
  using assms
proof (induction xs)
  case Nil then show ?case by simp
next
  case (Cons x xs)
  show ?case
  proof (cases "x = sp")
    case True
    with Cons.prems have "\<forall>y\<in>set xs. sp_id y \<noteq> sp_id sp" by (auto simp: image_iff)
    from edges_untouched[OF this, of f] True show ?thesis
      by (auto simp: edges_def)
  next
    case False
    with Cons.prems have "sp \<in> set xs" "distinct (map sp_id xs)" "sp_id x \<noteq> sp_id sp"
      by (auto simp: image_iff)
    with Cons.IH show ?thesis by (auto simp: edges_def)
  qed
qed

lemma issuedBy_same [simp]: "issuedBy db db = []"
  by (simp add: issuedBy_def)

lemma handleSubscriptionPaymentApproved_fields:
  "payments (handleSubscriptionPaymentApproved env now sp db) = payments db"
  "subscriptionPayments (handleSubscriptionPaymentApproved env now sp db) = subscriptionPayments db"
  "issued (handleSubscriptionPaymentApproved env now sp db)
     = issued db @ [SubscriptionUpdate (sp_subscriptionId sp)]"
  "subscriptions (handleSubscriptionPaymentApproved env now sp db)
     = (if dbThrows env UpdateSubscription then subscriptions db
        else activateSubscription (sp_subscriptionId sp) now (subscriptions db))"
  by (simp_all add: handleSubscriptionPaymentApproved_def Let_def)

lemma processSubscriptionPaymentWebhook_activation:
  assumes run: "processSubscriptionPaymentWebhook env now sp newStatus mp action db = (out, db')"
    and ids: "distinct (map sp_id (subscriptionPayments db))"
    and mem: "sp \<in> set (subscriptionPayments db)"
  shows "length (subscriptionPayments db') = length (subscriptionPayments db)
    \<and> length (approvalEdges db db') \<le> 1
    \<and> filter isSubscriptionUpdate (issuedBy db db') = map SubscriptionUpdate (approvalEdges db db')
    \<and> subscriptions db' =
          (if dbThrows env UpdateSubscription then subscriptions db
           else fold (\<lambda>sid. activateSubscription sid now) (approvalEdges db db') (subscriptions db))
    \<and> (newStatus \<noteq> Approved \<longrightarrow> approvalEdges db db' = [])"
proof -
  from processSubscriptionPaymentWebhook_cases[OF run]
  consider (same) "db' = db"
    | (threw) "db' = db\<lparr> issued := issued db @ [SubscriptionPaymentUpdate (sp_id sp)] \<rparr>"
    | (upd) mpId obj where "sp_status sp \<noteq> newStatus"
        "db' = (let db1 = db\<lparr> issued := issued db @ [SubscriptionPaymentUpdate (sp_id sp)],
                         subscriptionPayments :=
                           map (\<lambda>r. if sp_id r = sp_id sp
                                     then spUpdate env now newStatus mp action mpId obj r else r)
                               (subscriptionPayments db) \<rparr>
                      in if newStatus = Approved \<and> sp_status sp \<noteq> Approved
                         then handleSubscriptionPaymentApproved env now sp db1 else db1)"
    by blast
  then show ?thesis
  proof cases
    case same
    then show ?thesis by (simp add: approvalEdges_def)
  next
    case threw
    then show ?thesis by (simp add: approvalEdges_def issuedBy_def isSubscriptionUpdate_def)
  next
    case upd
    have st: "sp_status (spUpdate env now newStatus mp action mpId obj sp) = newStatus"
      by (simp add: spUpdate_def)
    have e: "edges (subscriptionPayments db)
               (map (\<lambda>r. if sp_id r = sp_id sp
                         then spUpdate env now newStatus mp action mpId obj r else r)
                    (subscriptionPayments db))
             = (if sp_status sp \<noteq> Approved \<and> newStatus = Approved
                then [sp_subscriptionId sp] else [])"
      using edges_update[OF ids mem, of "spUpdate env now newStatus mp action mpId obj"] st
      by simp
    show ?thesis
    proof (cases "newStatus = Approved \<and> sp_status sp \<noteq> Approved")
      case True
      with upd(2) e show ?thesis
        by (simp add: Let_def approvalEdges_def issuedBy_def isSubscriptionUpdate_def
              handleSubscriptionPaymentApproved_fields)
    next
      case False
      with upd(2) e show ?thesis
        by (auto simp: Let_def approvalEdges_def issuedBy_def isSubscriptionUpdate_def)
    qed
  qed
qed

lemma settlePayment_activation:
  assumes run: "settlePayment env now cur newStatus mp i action ref db = (out, db')"
  shows "subscriptionPayments db' = subscriptionPayments db
    \<and> subscriptions db' = subscriptions db
    \<and> filter isSubscriptionUpdate (issuedBy db db') = []"
  using settlePayment_cases[OF run]
  by (auto simp: issuedBy_def isSubscriptionUpdate_def)

lemma activateSubscription_Active:
  assumes "s \<in> set (activateSubscription sid now rows)" and "s_id s = sid"
  shows "s_status s = Active"
proof -
  from assms(1) obtain r where r: "r \<in> set rows"
    and s: "s = (if s_id r = sid then r\<lparr> s_status := Active, s_updatedAt := now \<rparr> else r)"
    unfolding activateSubscription_def by (auto simp: image_iff)
  show ?thesis
  proof (cases "s_id r = sid")
    case True with s show ?thesis by simp
  next
    case False
    with s have "s = r" by simp
    with False assms(2) show ?thesis by simp
  qed
qed

lemma activateSubscription_nth:
  assumes "k < length rows"
  shows "activateSubscription sid now rows ! k =
       (if s_id (rows ! k) = sid then (rows ! k)\<lparr> s_status := Active, s_updatedAt := now \<rparr>
        else rows ! k)"
  unfolding activateSubscription_def using assms by (rule nth_map)

lemma processPaymentWebhook_activation:
  assumes run: "processPaymentWebhook env now i action db = (out, db')"
    and ids: "distinct (map sp_id (subscriptionPayments db))"
  shows "length (subscriptionPayments db') = length (subscriptionPayments db)
    \<and> length (approvalEdges db db') \<le> 1
    \<and> filter isSubscriptionUpdate (issuedBy db db') = map SubscriptionUpdate (approvalEdges db db')
    \<and> subscriptions db' =
          (if dbThrows env UpdateSubscription then subscriptions db
           else fold (\<lambda>sid. activateSubscription sid now) (approvalEdges db db') (subscriptions db))
    \<and> (\<forall>mp. findById env i = GatewayPayment mp \<longrightarrow>
           mapMercadoPagoStatus (orElse (mp_status mp) ''pending'') \<noteq> Approved \<longrightarrow>
           approvalEdges db db' = [])"
  using processPaymentWebhook_paths[OF run]
proof (elim disjE exE conjE)
  assume "db' = db"
  then show ?thesis by (simp add: approvalEdges_def)
next
  fix mp sp rest
  assume g: "findById env i = GatewayPayment mp"
    and f: "filter (\<lambda>r. Some (sp_id r) = parseInt env (orElse (mp_external_reference mp) []))
                 (subscriptionPayments db) = sp # rest"
    and r: "processSubscriptionPaymentWebhook env now sp
                 (mapMercadoPagoStatus (orElse (mp_status mp) ''pending'')) mp action db = (out, db')"
  from filter_Cons_mem[OF f] have mem: "sp \<in> set (subscriptionPayments db)" by simp
  from processSubscriptionPaymentWebhook_activation[OF r ids mem] g
  show ?thesis by simp
next
  fix mp cur rest
  assume r: "settlePayment env now cur (mapMercadoPagoStatus (orElse (mp_status mp) ''pending''))
                 mp i action (orElse (mp_external_reference mp) []) db = (out, db')"
  from settlePayment_activation[OF r] show ?thesis by (simp add: approvalEdges_def)
qed

lemma webhook_db_cases:
  assumes "webhook env now body db = (resp, db')"
  shows "db' = db \<or> (\<exists>i out. validEnvelope body = Some (''payment'', i)
            \<and> processPaymentWebhook env now i (e_action body) db = (out, db'))"
proof (cases "validEnvelope body")
  case None
  with assms show ?thesis by (simp add: webhook_invalid)
next
  case (Some a)
  obtain type i where a: "a = (type, i)" by (cases a)
  show ?thesis
  proof (cases "type = ''payment''")
    case True
    obtain out d where p: "processPaymentWebhook env now i (e_action body) db = (out, d)"
      by (cases "processPaymentWebhook env now i (e_action body) db")
    with assms Some a True have "db' = d"
      by (cases out) (auto simp: webhook_payment)
    with p Some a True show ?thesis by blast
  next
    case False
    with assms Some a webhook_not_payment[of body type i env now db] show ?thesis by simp
  qed
qed

subsection \<open>Redelivery\<close>

lemma processSubscriptionPaymentWebhook_gate:
  "sp_status sp = newStatus \<Longrightarrow>
     processSubscriptionPaymentWebhook env now sp newStatus mp action db = (Returned, db)"
  by (simp add: processSubscriptionPaymentWebhook_def)

lemma settlePayment_gate:
  "p_status cur = newStatus \<Longrightarrow>
     settlePayment env now cur newStatus mp i action ref db = (Returned, db)"
  by (simp add: settlePayment_def)

text \<open>
  After a run of a settling branch that returned, the lookup that found the record finds
  it again, now with the mapped status stored.
\<close>

lemma processSubscriptionPaymentWebhook_then_settled:
  assumes run: "processSubscriptionPaymentWebhook env now sp newStatus mp action db = (Returned, db')"
    and found: "filter (\<lambda>r. Some (sp_id r) = n) (subscriptionPayments db) = sp # rest"
  shows "\<exists>sp' rest'. filter (\<lambda>r. Some (sp_id r) = n) (subscriptionPayments db') = sp' # rest'
           \<and> sp_status sp' = newStatus"
proof -
  from processSubscriptionPaymentWebhook_cases[OF run]
  consider (same) "db' = db" "sp_status sp = newStatus"
    | (upd) mpId obj where
        "db' = (let db1 = db\<lparr> issued := issued db @ [SubscriptionPaymentUpdate (sp_id sp)],
                         subscriptionPayments :=
                           map (\<lambda>r. if sp_id r = sp_id sp
                                     then spUpdate env now newStatus mp action mpId obj r else r)
                               (subscriptionPayments db) \<rparr>
                      in if newStatus = Approved \<and> sp_status sp \<noteq> Approved
                         then handleSubscriptionPaymentApproved env now sp db1 else db1)"
    by auto
  then show ?thesis
  proof cases
    case same
    with found show ?thesis by simp
  next
    case upd
    let ?f = "\<lambda>r. if sp_id r = sp_id sp
                    then spUpdate env now newStatus mp action mpId obj r else r"
    have sps: "subscriptionPayments db' = map ?f (subscriptionPayments db)"
      using upd by (simp add: Let_def handleSubscriptionPaymentApproved_fields)
    have "filter (\<lambda>r. Some (sp_id r) = n) (map ?f (subscriptionPayments db))
          = map ?f (filter (\<lambda>r. Some (sp_id r) = n) (subscriptionPayments db))"
      by (rule filter_map_same_key) (simp add: spUpdate_def)
    with found sps have "filter (\<lambda>r. Some (sp_id r) = n) (subscriptionPayments db')
          = spUpdate env now newStatus mp action mpId obj sp # map ?f rest"
      by simp
    moreover have "sp_status (spUpdate env now newStatus mp action mpId obj sp) = newStatus"
      by (simp add: spUpdate_def)
    ultimately show ?thesis by blast
  qed
qed

lemma settlePayment_then_settled:
  assumes run: "settlePayment env now cur newStatus mp i action ref db = (Returned, db')"
    and found: "filter (\<lambda>r. Some (p_id r) = parseInt env ref) (payments db) = cur # rest"
  shows "subscriptionPayments db' = subscriptionPayments db
     \<and> (\<exists>cur' rest'. filter (\<lambda>r. Some (p_id r) = parseInt env ref) (payments db') = cur' # rest'
           \<and> p_status cur' = newStatus)"
proof -
  from settlePayment_cases[OF run]
  consider (same) "db' = db" "p_status cur = newStatus"
    | (upd) obj where
        "db' = db\<lparr> issued := issued db @ [PaymentUpdate (p_id cur)],
                   payments := map (\<lambda>r. if Some (p_id r) = parseInt env ref
                                         then pUpdate env now newStatus mp action i obj r else r)
                                   (payments db) \<rparr>"
    by auto
  then show ?thesis
  proof cases
    case same
    with found show ?thesis by simp
  next
    case upd
    let ?f = "\<lambda>r. if Some (p_id r) = parseInt env ref
                    then pUpdate env now newStatus mp action i obj r else r"
    from filter_Cons_mem[OF found] have c: "Some (p_id cur) = parseInt env ref" by simp
    have "filter (\<lambda>r. Some (p_id r) = parseInt env ref) (map ?f (payments db))
          = map ?f (filter (\<lambda>r. Some (p_id r) = parseInt env ref) (payments db))"
      by (rule filter_map_same_key) (simp add: pUpdate_def)
    with found upd c have "filter (\<lambda>r. Some (p_id r) = parseInt env ref) (payments db')
          = pUpdate env now newStatus mp action i obj cur # map ?f rest"
      by simp
    moreover have "p_status (pUpdate env now newStatus mp action i obj cur) = newStatus"
      by (simp add: pUpdate_def)
    moreover have "subscriptionPayments db' = subscriptionPayments db" using upd by simp
    ultimately show ?thesis by blast
  qed
qed

lemma processPaymentWebhook_again:
  assumes run: "processPaymentWebhook env now i action db = (Returned, db')"
  shows "processPaymentWebhook env now' i action db' = (Returned, db')"
  using processPaymentWebhook_paths[OF run]
proof (elim disjE exE conjE)
  assume "db' = db" "\<forall>now'. processPaymentWebhook env now' i action db = (Returned, db)"
  then show ?thesis by simp
next
  fix mp sp rest
  assume g: "findById env i = GatewayPayment mp" and t: "truthy (mp_external_reference mp)"
    and ns: "\<not> dbThrows env SelectSubscriptionPayment"
    and f: "filter (\<lambda>r. Some (sp_id r) = parseInt env (orElse (mp_external_reference mp) []))
                 (subscriptionPayments db) = sp # rest"
    and r: "processSubscriptionPaymentWebhook env now sp
                 (mapMercadoPagoStatus (orElse (mp_status mp) ''pending'')) mp action db
              = (Returned, db')"
  from processSubscriptionPaymentWebhook_then_settled[OF r f] obtain sp' rest' where
    f': "filter (\<lambda>r. Some (sp_id r) = parseInt env (orElse (mp_external_reference mp) []))
                 (subscriptionPayments db') = sp' # rest'"
    and st: "sp_status sp' = mapMercadoPagoStatus (orElse (mp_status mp) ''pending'')"
    by blast
  show ?thesis
    using processPaymentWebhook_found_subscriptionPayment[OF g t ns f', of now' action]
      processSubscriptionPaymentWebhook_gate[OF st]
    by simp
next
  fix mp cur rest
  assume g: "findById env i = GatewayPayment mp" and t: "truthy (mp_external_reference mp)"
    and ns: "\<not> dbThrows env SelectSubscriptionPayment"
    and f0: "filter (\<lambda>r. Some (sp_id r) = parseInt env (orElse (mp_external_reference mp) []))
                 (subscriptionPayments db) = []"
    and np: "\<not> dbThrows env SelectPayment"
    and f: "filter (\<lambda>r. Some (p_id r) = parseInt env (orElse (mp_external_reference mp) []))
                 (payments db) = cur # rest"
    and r: "settlePayment env now cur (mapMercadoPagoStatus (orElse (mp_status mp) ''pending''))
                 mp i action (orElse (mp_external_reference mp) []) db = (Returned, db')"
  from settlePayment_then_settled[OF r f] obtain cur' rest' where
    s': "subscriptionPayments db' = subscriptionPayments db"
    and f': "filter (\<lambda>r. Some (p_id r) = parseInt env (orElse (mp_external_reference mp) []))
                 (payments db') = cur' # rest'"
    and st: "p_status cur' = mapMercadoPagoStatus (orElse (mp_status mp) ''pending'')"
    by blast
  from f0 s' have f0': "filter (\<lambda>r. Some (sp_id r) = parseInt env (orElse (mp_external_reference mp) []))
                 (subscriptionPayments db') = []" by simp
  show ?thesis
    using processPaymentWebhook_found_payment[OF g t ns f0' np f', of now' action]
      settlePayment_gate[OF st]
    by simp
qed

lemma webhook_again:
  assumes run: "webhook env now body db = ((200, b), db')"
  shows "webhook env now' body db' = ((200, b), db')"
proof (cases "validEnvelope body")
  case None
  with run show ?thesis by (simp add: webhook_invalid)
next
  case (Some a)
  obtain type i where a: "a = (type, i)" by (cases a)
  show ?thesis
  proof (cases "type = ''payment''")
    case True
    with run Some a have "respond (processPaymentWebhook env now i (e_action body) db) = ((200, b), db')"
      by (simp add: webhook_payment)
    then have r: "processPaymentWebhook env now i (e_action body) db = (Returned, db')"
      and b: "b = Received" by (simp_all add: respond_200)
    from processPaymentWebhook_again[OF r, of now'] b Some a True show ?thesis
      by (simp add: webhook_payment)
  next
    case False
    with run Some a webhook_not_payment[of body type i env] show ?thesis by simp
  qed
qed

lemma webhook_gate:
  assumes v: "validEnvelope body = Some (''payment'', i)"
    and g: "findById env i = GatewayPayment mp" and t: "truthy (mp_external_reference mp)"
    and st: "storedStatus env (orElse (mp_external_reference mp) []) db
               = Some (mapMercadoPagoStatus (orElse (mp_status mp) ''pending''))"
    and ok: "\<not> dbThrows env SelectSubscriptionPayment" "\<not> dbThrows env SelectPayment"
  shows "webhook env now body db = ((200, Received), db)"
proof (cases "filter (\<lambda>r. Some (sp_id r) = parseInt env (orElse (mp_external_reference mp) []))
                 (subscriptionPayments db)")
  case (Cons sp rest)
  with st have "sp_status sp = mapMercadoPagoStatus (orElse (mp_status mp) ''pending'')"
    by (simp add: storedStatus_def)
  from processSubscriptionPaymentWebhook_gate[OF this]
    processPaymentWebhook_found_subscriptionPayment[OF g t ok(1) Cons, of now "e_action body"]
  show ?thesis by (simp add: webhook_payment[OF v])
next
  case Nil
  with st obtain cur rest where
    f: "filter (\<lambda>r. Some (p_id r) = parseInt env (orElse (mp_external_reference mp) []))
          (payments db) = cur # rest"
    and s: "p_status cur = mapMercadoPagoStatus (orElse (mp_status mp) ''pending'')"
    by (auto simp: storedStatus_def split: list.splits)
  from settlePayment_gate[OF s]
    processPaymentWebhook_found_payment[OF g t ok(1) Nil ok(2) f, of now "e_action body"]
  show ?thesis by (simp add: webhook_payment[OF v])
qed

text \<open>
  \<^bold>\<open>C4.\<close> When the record the notification resolves to already stores the mapped
  status, the webhook answers 200 and leaves the stored state as it was, the list of
  executed updates included: no record is updated and no subscription is activated.
  Hence a notification that was answered 200 can be delivered again, at any later time,
  and is answered 200 again with the stored state unchanged.
\<close>

theorem webhook_redelivery_changes_nothing:
  "(\<forall>i mp. validEnvelope body = Some (''payment'', i) \<longrightarrow>
       findById env i = GatewayPayment mp \<longrightarrow> truthy (mp_external_reference mp) \<longrightarrow>
       storedStatus env (orElse (mp_external_reference mp) []) db
         = Some (mapMercadoPagoStatus (orElse (mp_status mp) ''pending'')) \<longrightarrow>
       \<not> dbThrows env SelectSubscriptionPayment \<longrightarrow> \<not> dbThrows env SelectPayment \<longrightarrow>
       webhook env now body db = ((200, Received), db))
   \<and> (\<forall>b db' now'. webhook env now body db = ((200, b), db') \<longrightarrow>
         webhook env now' body db' = ((200, b), db'))"
  using webhook_gate webhook_again by blast

theorem webhook_redelivery_changes_nothing_witness:
  "validEnvelope paymentEnvelope = Some (''payment'', ''555'')
   \<and> findById scenarioEnv ''555'' = GatewayPayment approvedPayment
   \<and> storedStatus scenarioEnv ''42'' activatedDb = Some Approved
   \<and> webhook scenarioEnv 1000 paymentEnvelope pendingDb = ((200, Received), activatedDb)
   \<and> webhook scenarioEnv 2000 paymentEnvelope activatedDb = ((200, Received), activatedDb)"
proof -
  have v: "validEnvelope paymentEnvelope = Some (''payment'', ''555'')"
    by (simp add: validEnvelope_def paymentEnvelope_def)
  have g: "findById scenarioEnv ''555'' = GatewayPayment approvedPayment"
    by (simp add: scenarioEnv_def)
  have s: "storedStatus scenarioEnv ''42'' activatedDb = Some Approved"
    by (simp add: storedStatus_def scenarioEnv_def activatedDb_def approvedSubscriptionPayment_def)
  have first: "webhook scenarioEnv 1000 paymentEnvelope pendingDb = ((200, Received), activatedDb)"
    by (simp add: webhook_def validEnvelope_def paymentEnvelope_def scenarioEnv_def
        processPaymentWebhook_def approvedPayment_def truthy_def orElse_def
        mapMercadoPagoStatus_def pendingDb_def pendingSubscriptionPayment_def
        processSubscriptionPaymentWebhook_def parseMetadata_def Let_def spUpdate_def
        approvedDate_def webhookFields_def setField_def handleSubscriptionPaymentApproved_def
        activateSubscription_def respond_def activatedDb_def approvedSubscriptionPayment_def
        scenarioFields_def)
  from webhook_redelivery_changes_nothing[of paymentEnvelope scenarioEnv pendingDb 1000] first
  have "webhook scenarioEnv 2000 paymentEnvelope activatedDb = ((200, Received), activatedDb)"
    by blast
  with v g s first show ?thesis by simp
qed

subsection \<open>Activation, failures and response codes\<close>

text \<open>
  \<^bold>\<open>C5.\<close> For every notification and every stored state with distinct
  subscription-payment identifiers: the updates of the subscriptions table that the
  webhook executes are exactly those for the approval edges, at most one, where an edge
  is a subscription payment whose stored status was not Approved before and is Approved
  after. Unless that update throws, the subscriptions afterwards are the subscriptions
  before with the linked subscription set to Active; no other row changes, so a
  subscription leaves PendingPayment only by such an edge and only to Active. A mapped
  status other than Approved gives no edge and leaves the subscriptions as they were.
\<close>

theorem subscription_activated_on_approval_edge:
  assumes run: "webhook env now body db = (resp, db')"
    and ids: "distinct (map sp_id (subscriptionPayments db))"
  shows "length (subscriptionPayments db') = length (subscriptionPayments db)
    \<and> length (approvalEdges db db') \<le> 1
    \<and> filter isSubscriptionUpdate (issuedBy db db') = map SubscriptionUpdate (approvalEdges db db')
    \<and> subscriptions db' =
          (if dbThrows env UpdateSubscription then subscriptions db
           else fold (\<lambda>sid. activateSubscription sid now) (approvalEdges db db') (subscriptions db))
    \<and> (\<not> dbThrows env UpdateSubscription \<longrightarrow>
          (\<forall>s\<in>set (subscriptions db'). s_id s \<in> set (approvalEdges db db') \<longrightarrow> s_status s = Active))
    \<and> (\<forall>k<length (subscriptions db).
           s_status (subscriptions db ! k) = PendingPayment
           \<and> s_status (subscriptions db' ! k) \<noteq> PendingPayment \<longrightarrow>
           s_id (subscriptions db ! k) \<in> set (approvalEdges db db')
           \<and> s_status (subscriptions db' ! k) = Active)
    \<and> (\<forall>i mp. validEnvelope body = Some (''payment'', i) \<longrightarrow>
           findById env i = GatewayPayment mp \<longrightarrow>
           mapMercadoPagoStatus (orElse (mp_status mp) ''pending'') \<noteq> Approved \<longrightarrow>
           approvalEdges db db' = [] \<and> subscriptions db' = subscriptions db)"
proof -
  have core: "length (subscriptionPayments db') = length (subscriptionPayments db)
    \<and> length (approvalEdges db db') \<le> 1
    \<and> filter isSubscriptionUpdate (issuedBy db db') = map SubscriptionUpdate (approvalEdges db db')
    \<and> subscriptions db' =
          (if dbThrows env UpdateSubscription then subscriptions db
           else fold (\<lambda>sid. activateSubscription sid now) (approvalEdges db db') (subscriptions db))
    \<and> (\<forall>i mp. validEnvelope body = Some (''payment'', i) \<longrightarrow>
           findById env i = GatewayPayment mp \<longrightarrow>
           mapMercadoPagoStatus (orElse (mp_status mp) ''pending'') \<noteq> Approved \<longrightarrow>
           approvalEdges db db' = [])"
    using webhook_db_cases[OF run]
  proof (elim disjE exE conjE)
    assume "db' = db"
    then have "approvalEdges db db' = []" "issuedBy db db' = []" by (simp_all add: approvalEdges_def)
    with \<open>db' = db\<close> show ?thesis by simp
  next
    fix i out
    assume v: "validEnvelope body = Some (''payment'', i)"
      and p: "processPaymentWebhook env now i (e_action body) db = (out, db')"
    have "\<forall>j mp. validEnvelope body = Some (''payment'', j) \<longrightarrow>
           findById env j = GatewayPayment mp \<longrightarrow>
           mapMercadoPagoStatus (orElse (mp_status mp) ''pending'') \<noteq> Approved \<longrightarrow>
           approvalEdges db db' = []"
      using processPaymentWebhook_activation[OF p ids] v by auto
    with processPaymentWebhook_activation[OF p ids] show ?thesis by blast
  qed
  then have len: "length (approvalEdges db db') \<le> 1"
    and subs: "subscriptions db' =
          (if dbThrows env UpdateSubscription then subscriptions db
           else fold (\<lambda>sid. activateSubscription sid now) (approvalEdges db db') (subscriptions db))"
    by blast+
  from len consider (none) "approvalEdges db db' = []" | (one) sid where "approvalEdges db db' = [sid]"
    by (cases "approvalEdges db db'") auto
  then have actleave: "(\<not> dbThrows env UpdateSubscription \<longrightarrow>
          (\<forall>s\<in>set (subscriptions db'). s_id s \<in> set (approvalEdges db db') \<longrightarrow> s_status s = Active))
    \<and> (\<forall>k<length (subscriptions db).
           s_status (subscriptions db ! k) = PendingPayment
           \<and> s_status (subscriptions db' ! k) \<noteq> PendingPayment \<longrightarrow>
           s_id (subscriptions db ! k) \<in> set (approvalEdges db db')
           \<and> s_status (subscriptions db' ! k) = Active)"
  proof cases
    case none
    with subs have "subscriptions db' = subscriptions db" by simp
    with none show ?thesis by simp
  next
    case one
    with subs have s': "subscriptions db' =
          (if dbThrows env UpdateSubscription then subscriptions db
           else activateSubscription sid now (subscriptions db))" by simp
    have a: "\<not> dbThrows env UpdateSubscription \<longrightarrow>
          (\<forall>s\<in>set (subscriptions db'). s_id s \<in> set (approvalEdges db db') \<longrightarrow> s_status s = Active)"
      using s' one activateSubscription_Active by auto
    have b: "\<forall>k<length (subscriptions db).
           s_status (subscriptions db ! k) = PendingPayment
           \<and> s_status (subscriptions db' ! k) \<noteq> PendingPayment \<longrightarrow>
           s_id (subscriptions db ! k) \<in> set (approvalEdges db db')
           \<and> s_status (subscriptions db' ! k) = Active"
    proof (intro allI impI)
      fix k assume k: "k < length (subscriptions db)"
        and c: "s_status (subscriptions db ! k) = PendingPayment
           \<and> s_status (subscriptions db' ! k) \<noteq> PendingPayment"
      show "s_id (subscriptions db ! k) \<in> set (approvalEdges db db')
           \<and> s_status (subscriptions db' ! k) = Active"
      proof (cases "dbThrows env UpdateSubscription")
        case True with s' c show ?thesis by simp
      next
        case False
        with s' have "subscriptions db' ! k = activateSubscription sid now (subscriptions db) ! k"
          by simp
        with k c one show ?thesis
          by (cases "s_id (subscriptions db ! k) = sid") (simp_all add: activateSubscription_nth)
      qed
    qed
    from a b show ?thesis by blast
  qed
  from core have nonapp: "\<forall>i mp. validEnvelope body = Some (''payment'', i) \<longrightarrow>
           findById env i = GatewayPayment mp \<longrightarrow>
           mapMercadoPagoStatus (orElse (mp_status mp) ''pending'') \<noteq> Approved \<longrightarrow>
           approvalEdges db db' = [] \<and> subscriptions db' = subscriptions db"
    using subs by auto
  from core actleave nonapp show ?thesis by blast
qed

theorem subscription_activated_on_approval_edge_witness:
  "webhook scenarioEnv 1000 paymentEnvelope pendingDb = ((200, Received), activatedDb)
   \<and> distinct (map sp_id (subscriptionPayments pendingDb))
   \<and> approvalEdges pendingDb activatedDb = [7]
   \<and> filter isSubscriptionUpdate (issuedBy pendingDb activatedDb) = [SubscriptionUpdate 7]
   \<and> subscriptions activatedDb = [\<lparr> s_id = 7, s_status = Active, s_updatedAt = 1000 \<rparr>]"
proof -
  have run: "webhook scenarioEnv 1000 paymentEnvelope pendingDb = ((200, Received), activatedDb)"
    by (simp add: webhook_def validEnvelope_def paymentEnvelope_def scenarioEnv_def
        processPaymentWebhook_def approvedPayment_def truthy_def orElse_def
        mapMercadoPagoStatus_def pendingDb_def pendingSubscriptionPayment_def
        processSubscriptionPaymentWebhook_def parseMetadata_def Let_def spUpdate_def
        approvedDate_def webhookFields_def setField_def handleSubscriptionPaymentApproved_def
        activateSubscription_def respond_def activatedDb_def approvedSubscriptionPayment_def
        scenarioFields_def)
  have ids: "distinct (map sp_id (subscriptionPayments pendingDb))"
    by (simp add: pendingDb_def)
  have e: "approvalEdges pendingDb activatedDb = [7]"
    by (simp add: approvalEdges_def edges_def pendingDb_def activatedDb_def
          pendingSubscriptionPayment_def approvedSubscriptionPayment_def)
  from subscription_activated_on_approval_edge[OF run ids]
  have "filter isSubscriptionUpdate (issuedBy pendingDb activatedDb)
          = map SubscriptionUpdate (approvalEdges pendingDb activatedDb)"
    and "subscriptions activatedDb =
          (if dbThrows scenarioEnv UpdateSubscription then subscriptions pendingDb
           else fold (\<lambda>sid. activateSubscription sid 1000) (approvalEdges pendingDb activatedDb)
                  (subscriptions pendingDb))"
    by blast+
  with run ids e show ?thesis
    by (simp add: scenarioEnv_def pendingDb_def activateSubscription_def)
qed

text \<open>
  \<^bold>\<open>C6.\<close> An exception in the gateway call or in a lookup of
  \<open>processPaymentWebhook\<close> is to leave the answer at 200. The function's \<^verbatim>\<open>catch\<close>
  logs the exception and throws it again, and the handler answers 500: here the gateway
  call throws for a well-formed payment notification.
\<close>

theorem webhook_gateway_failure_answers_500:
  "validEnvelope paymentEnvelope = Some (''payment'', ''555'')
   \<and> findById downEnv ''555'' = GatewayThrows
   \<and> webhook downEnv 1000 paymentEnvelope pendingDb =
        ((500, WebhookError ''Webhook processing failed''), pendingDb)"
  by (simp add: webhook_def validEnvelope_def paymentEnvelope_def scenarioEnv_def downEnv_def
        processPaymentWebhook_def respond_def)

text \<open>
  \<^bold>\<open>C6, as the code has it.\<close> For a payment notification: when the gateway call
  throws, or a lookup of the local record throws, the webhook answers 500 and the stored
  state is unchanged; when the gateway returns nothing or a payment without external
  reference, or neither table holds the record, it answers 200 and the stored state is
  unchanged. An envelope that fails the guard is answered 400.
\<close>

theorem webhook_lookup_outcomes:
  "(validEnvelope body = None \<longrightarrow>
      webhook env now body db = ((400, WebhookError ''Invalid webhook structure''), db))
   \<and> (\<forall>i. validEnvelope body = Some (''payment'', i) \<longrightarrow>
        (findById env i = GatewayThrows \<longrightarrow>
           webhook env now body db = ((500, WebhookError ''Webhook processing failed''), db))
      \<and> (findById env i = GatewayNothing \<longrightarrow> webhook env now body db = ((200, Received), db))
      \<and> (\<forall>mp. findById env i = GatewayPayment mp \<longrightarrow>
            (\<not> truthy (mp_external_reference mp) \<longrightarrow>
               webhook env now body db = ((200, Received), db))
          \<and> (truthy (mp_external_reference mp) \<longrightarrow> dbThrows env SelectSubscriptionPayment \<longrightarrow>
               webhook env now body db = ((500, WebhookError ''Webhook processing failed''), db))
          \<and> (truthy (mp_external_reference mp) \<longrightarrow> \<not> dbThrows env SelectSubscriptionPayment \<longrightarrow>
               filter (\<lambda>r. Some (sp_id r) = parseInt env (orElse (mp_external_reference mp) []))
                 (subscriptionPayments db) = [] \<longrightarrow>
               (dbThrows env SelectPayment \<longrightarrow>
                  webhook env now body db
                    = ((500, WebhookError ''Webhook processing failed''), db))
             \<and> (\<not> dbThrows env SelectPayment \<longrightarrow>
                  filter (\<lambda>r. Some (p_id r) = parseInt env (orElse (mp_external_reference mp) []))
                    (payments db) = [] \<longrightarrow>
                  webhook env now body db = ((200, Received), db)))))"
  by (auto simp: webhook_invalid webhook_payment processPaymentWebhook_def Let_def)

theorem webhook_lookup_outcomes_witness:
  "validEnvelope paymentEnvelope = Some (''payment'', ''555'')
   \<and> findById lookupDownEnv ''555'' = GatewayPayment approvedPayment
   \<and> truthy (mp_external_reference approvedPayment)
   \<and> dbThrows lookupDownEnv SelectSubscriptionPayment
   \<and> webhook lookupDownEnv 1000 paymentEnvelope pendingDb =
        ((500, WebhookError ''Webhook processing failed''), pendingDb)"
proof -
  have v: "validEnvelope paymentEnvelope = Some (''payment'', ''555'')"
    by (simp add: validEnvelope_def paymentEnvelope_def)
  have g: "findById lookupDownEnv ''555'' = GatewayPayment approvedPayment"
    by (simp add: lookupDownEnv_def scenarioEnv_def)
  have t: "truthy (mp_external_reference approvedPayment)"
    by (simp add: truthy_def approvedPayment_def)
  have d: "dbThrows lookupDownEnv SelectSubscriptionPayment"
    by (simp add: lookupDownEnv_def)
  from webhook_lookup_outcomes[of paymentEnvelope lookupDownEnv 1000 pendingDb] v g t d
  have "webhook lookupDownEnv 1000 paymentEnvelope pendingDb =
        ((500, WebhookError ''Webhook processing failed''), pendingDb)"
    by blast
  with v g t d show ?thesis by simp
qed

text \<open>
  \<^bold>\<open>C7.\<close> \<open>mapMercadoPagoStatus\<close> sends \<^verbatim>\<open>approved\<close> to Approved,
  \<^verbatim>\<open>cancelled\<close> and \<^verbatim>\<open>rejected\<close> to Cancelled, \<^verbatim>\<open>refunded\<close> to Refunded and every
  other string, \<^verbatim>\<open>pending\<close> and \<^verbatim>\<open>in_process\<close> among them, to Pending. It is a
  function into the four statuses: there is no error value.
\<close>

theorem mapMercadoPagoStatus_total:
  "mapMercadoPagoStatus ''approved'' = Approved
   \<and> mapMercadoPagoStatus ''cancelled'' = PaymentCancelled
   \<and> mapMercadoPagoStatus ''rejected'' = PaymentCancelled
   \<and> mapMercadoPagoStatus ''refunded'' = Refunded
   \<and> mapMercadoPagoStatus ''pending'' = Pending
   \<and> mapMercadoPagoStatus ''in_process'' = Pending
   \<and> (s \<notin> {''approved'', ''cancelled'', ''rejected'', ''refunded''}
         \<longrightarrow> mapMercadoPagoStatus s = Pending)
   \<and> mapMercadoPagoStatus s \<in> {Approved, PaymentCancelled, Refunded, Pending}"
  by (simp add: mapMercadoPagoStatus_def)

theorem mapMercadoPagoStatus_total_witness:
  "''authorized'' \<notin> {''approved'', ''cancelled'', ''rejected'', ''refunded''}
   \<and> mapMercadoPagoStatus ''authorized'' = Pending"
  using mapMercadoPagoStatus_total[of "''authorized''"] by simp

text \<open>
  \<^bold>\<open>C8.\<close> The webhook is to answer 400 if and only if \<^verbatim>\<open>type\<close> or
  \<^verbatim>\<open>data.id\<close> is missing. The guard tests JavaScript truth, so a field that is
  present and empty is refused as well: here \<^verbatim>\<open>type\<close> is the empty string.
\<close>

theorem webhook_empty_type_answers_400:
  "e_type emptyTypeEnvelope = Some []
   \<and> e_data emptyTypeEnvelope = Some \<lparr> d_id = Some ''555'' \<rparr>
   \<and> webhook scenarioEnv 1000 emptyTypeEnvelope pendingDb =
        ((400, WebhookError ''Invalid webhook structure''), pendingDb)"
  by (simp add: webhook_def validEnvelope_def emptyTypeEnvelope_def)

text \<open>
  \<^bold>\<open>C8, as the code has it.\<close> The webhook answers 400 if and only if \<^verbatim>\<open>type\<close>,
  \<^verbatim>\<open>data\<close> or \<^verbatim>\<open>data.id\<close> is missing or empty. For every other envelope: a type
  other than \<^verbatim>\<open>payment\<close> (\<^verbatim>\<open>subscription\<close>, \<^verbatim>\<open>preapproval\<close> and unknown
  types) is answered 200 with the stored state unchanged; a payment notification is
  answered 200 when \<open>processPaymentWebhook\<close> returns and 500 when it throws.
\<close>

theorem webhook_response_codes:
  "(fst (fst (webhook env now body db)) = 400 \<longleftrightarrow>
       \<not> truthy (e_type body)
        \<or> (case e_data body of None \<Rightarrow> True | Some d \<Rightarrow> \<not> truthy (d_id d)))
   \<and> (\<forall>type i. validEnvelope body = Some (type, i) \<longrightarrow> type \<noteq> ''payment'' \<longrightarrow>
         webhook env now body db = ((200, Received), db))
   \<and> (\<forall>i db'. validEnvelope body = Some (''payment'', i) \<longrightarrow>
         processPaymentWebhook env now i (e_action body) db = (Returned, db') \<longrightarrow>
         webhook env now body db = ((200, Received), db'))
   \<and> (\<forall>i db'. validEnvelope body = Some (''payment'', i) \<longrightarrow>
         processPaymentWebhook env now i (e_action body) db = (Threw, db') \<longrightarrow>
         webhook env now body db = ((500, WebhookError ''Webhook processing failed''), db'))"
  using webhook_400_iff[of env now body db] validEnvelope_None_iff[of body]
  by (auto simp: webhook_payment webhook_not_payment)

theorem webhook_response_codes_witness:
  "validEnvelope subscriptionEnvelope = Some (''subscription'', ''555'')
   \<and> ''subscription'' \<noteq> ''payment''
   \<and> fst (fst (webhook scenarioEnv 1000 subscriptionEnvelope pendingDb)) \<noteq> 400
   \<and> webhook scenarioEnv 1000 subscriptionEnvelope pendingDb = ((200, Received), pendingDb)"
proof -
  have v: "validEnvelope subscriptionEnvelope = Some (''subscription'', ''555'')"
    by (simp add: validEnvelope_def subscriptionEnvelope_def)
  have n: "''subscription'' \<noteq> ''payment''" by simp
  from webhook_response_codes[of scenarioEnv 1000 subscriptionEnvelope pendingDb] v n
  have "webhook scenarioEnv 1000 subscriptionEnvelope pendingDb = ((200, Received), pendingDb)"
    by blast
  with v n show ?thesis by simp
qed

text \<open>
  \<^bold>\<open>C10.\<close> A notification maps to Approved and resolves to a subscription payment that
  is not Approved; the update of the payment succeeds and the update of the subscription
  throws. \<open>handleSubscriptionPaymentApproved\<close> swallows the exception: the webhook
  answers 200, the subscription payment keeps the Approved status just written and the
  subscriptions table is as it was, so an Approved subscription payment does not imply
  an Active subscription.
\<close>

theorem subscription_activation_failure_is_swallowed:
  assumes v: "validEnvelope body = Some (''payment'', i)"
    and g: "findById env i = GatewayPayment mp" and t: "truthy (mp_external_reference mp)"
    and appr: "mapMercadoPagoStatus (orElse (mp_status mp) ''pending'') = Approved"
    and f: "filter (\<lambda>r. Some (sp_id r) = parseInt env (orElse (mp_external_reference mp) []))
              (subscriptionPayments db) = sp # rest"
    and st: "sp_status sp \<noteq> Approved"
    and mpid: "mp_id mp = Some mpId" and meta: "parseMetadata (sp_metadata sp) = Some obj"
    and ok: "\<not> dbThrows env SelectSubscriptionPayment" "\<not> dbThrows env UpdateSubscriptionPayment"
    and fails: "dbThrows env UpdateSubscription"
  shows "webhook env now body db =
           ((200, Received),
            db\<lparr> issued := issued db @ [SubscriptionPaymentUpdate (sp_id sp),
                                        SubscriptionUpdate (sp_subscriptionId sp)],
                subscriptionPayments :=
                  map (\<lambda>r. if sp_id r = sp_id sp
                            then spUpdate env now Approved mp (e_action body) mpId obj r else r)
                      (subscriptionPayments db) \<rparr>)
     \<and> subscriptions (snd (webhook env now body db)) = subscriptions db
     \<and> (\<forall>r\<in>set (subscriptionPayments (snd (webhook env now body db))).
           sp_id r = sp_id sp \<longrightarrow> sp_status r = Approved)"
proof -
  have "processSubscriptionPaymentWebhook env now sp Approved mp (e_action body) db =
          (Returned,
           db\<lparr> issued := issued db @ [SubscriptionPaymentUpdate (sp_id sp),
                                       SubscriptionUpdate (sp_subscriptionId sp)],
               subscriptionPayments :=
                 map (\<lambda>r. if sp_id r = sp_id sp
                           then spUpdate env now Approved mp (e_action body) mpId obj r else r)
                     (subscriptionPayments db) \<rparr>)"
    using st mpid meta ok(2) fails
    by (simp add: processSubscriptionPaymentWebhook_def handleSubscriptionPaymentApproved_def
          Let_def)
  with processPaymentWebhook_found_subscriptionPayment[OF g t ok(1) f, of now "e_action body"]
    appr
  have run: "webhook env now body db =
           ((200, Received),
            db\<lparr> issued := issued db @ [SubscriptionPaymentUpdate (sp_id sp),
                                        SubscriptionUpdate (sp_subscriptionId sp)],
                subscriptionPayments :=
                  map (\<lambda>r. if sp_id r = sp_id sp
                            then spUpdate env now Approved mp (e_action body) mpId obj r else r)
                      (subscriptionPayments db) \<rparr>)"
    by (simp add: webhook_payment[OF v])
  then show ?thesis by (auto simp: spUpdate_def)
qed

theorem subscription_activation_failure_is_swallowed_witness:
  "validEnvelope paymentEnvelope = Some (''payment'', ''555'')
   \<and> findById flakyEnv ''555'' = GatewayPayment approvedPayment
   \<and> dbThrows flakyEnv UpdateSubscription
   \<and> webhook flakyEnv 1000 paymentEnvelope pendingDb = ((200, Received), strandedDb)
   \<and> subscriptionPayments strandedDb = [approvedSubscriptionPayment]
   \<and> sp_status approvedSubscriptionPayment = Approved
   \<and> sp_subscriptionId approvedSubscriptionPayment = 7
   \<and> subscriptions strandedDb = [\<lparr> s_id = 7, s_status = PendingPayment, s_updatedAt = 0 \<rparr>]"
proof -
  have v: "validEnvelope paymentEnvelope = Some (''payment'', ''555'')"
    by (simp add: validEnvelope_def paymentEnvelope_def)
  have g: "findById flakyEnv ''555'' = GatewayPayment approvedPayment"
    by (simp add: flakyEnv_def scenarioEnv_def)
  have t: "truthy (mp_external_reference approvedPayment)"
    by (simp add: truthy_def approvedPayment_def)
  have appr: "mapMercadoPagoStatus (orElse (mp_status approvedPayment) ''pending'') = Approved"
    by (simp add: mapMercadoPagoStatus_def orElse_def approvedPayment_def)
  have f: "filter (\<lambda>r. Some (sp_id r)
                     = parseInt flakyEnv (orElse (mp_external_reference approvedPayment) []))
              (subscriptionPayments pendingDb) = pendingSubscriptionPayment # []"
    by (simp add: flakyEnv_def scenarioEnv_def orElse_def approvedPayment_def pendingDb_def
          pendingSubscriptionPayment_def)
  have st: "sp_status pendingSubscriptionPayment \<noteq> Approved"
    by (simp add: pendingSubscriptionPayment_def)
  have mpid: "mp_id approvedPayment = Some ''555''" by (simp add: approvedPayment_def)
  have meta: "parseMetadata (sp_metadata pendingSubscriptionPayment) = Some []"
    by (simp add: parseMetadata_def pendingSubscriptionPayment_def)
  have ok: "\<not> dbThrows flakyEnv SelectSubscriptionPayment"
    "\<not> dbThrows flakyEnv UpdateSubscriptionPayment"
    by (simp_all add: flakyEnv_def)
  have fails: "dbThrows flakyEnv UpdateSubscription" by (simp add: flakyEnv_def)
  have final: "pendingDb\<lparr> issued := issued pendingDb
                   @ [SubscriptionPaymentUpdate (sp_id pendingSubscriptionPayment),
                      SubscriptionUpdate (sp_subscriptionId pendingSubscriptionPayment)],
                subscriptionPayments :=
                  map (\<lambda>r. if sp_id r = sp_id pendingSubscriptionPayment
                            then spUpdate flakyEnv 1000 Approved approvedPayment
                                   (e_action paymentEnvelope) ''555'' [] r
                            else r)
                      (subscriptionPayments pendingDb) \<rparr> = strandedDb"
    by (simp add: pendingDb_def strandedDb_def pendingSubscriptionPayment_def
          approvedSubscriptionPayment_def spUpdate_def approvedDate_def truthy_def
          approvedPayment_def webhookFields_def setField_def flakyEnv_def scenarioEnv_def
          paymentEnvelope_def scenarioFields_def)
  from subscription_activation_failure_is_swallowed
         [OF v g t appr f st mpid meta ok fails, of 1000]
  have "webhook flakyEnv 1000 paymentEnvelope pendingDb = ((200, Received), strandedDb)"
    unfolding final by (rule conjunct1)
  with v g fails show ?thesis
    by (simp add: strandedDb_def approvedSubscriptionPayment_def)
qed

end
